theory Spec2Isabelle
  imports Main "HOL-Library.AList"
begin

section \<open>easy-node-logging: values, levels and errors\<close>

text \<open>
  The development embeds \<^verbatim>\<open>src/index.js\<close> (the version with
  \<^verbatim>\<open>createLogger(component, source, sourceColor)\<close>). JavaScript values that the
  library only inspects for their type and truthiness are primitives; messages and thrown
  values may also be arrays and objects. Numbers are integers: fractions and NaN are not
  modelled.
\<close>

datatype prim = PUndefined | PNull | PBool bool | PNum int | PStr string

datatype jsval =
    JUndefined
  | JNull
  | JBool bool
  | JNum int
  | JStr string
  | JArr "jsval list"
  | JObj "(string \<times> jsval) list"
  | JError string string

text \<open>Truthiness of a primitive, as \<^verbatim>\<open>if (x)\<close> and \<^verbatim>\<open>x || y\<close> test it.\<close>

fun truthy :: "prim \<Rightarrow> bool" where
  "truthy PUndefined = False"
| "truthy PNull = False"
| "truthy (PBool b) = b"
| "truthy (PNum n) = (n \<noteq> 0)"
| "truthy (PStr s) = (s \<noteq> [])"

datatype errClass = Error | TypeError | RangeError

text \<open>
  A thrown error: its class and its message. Where the source appends the offending colour
  or target type to the message, the message is kept up to that value.
\<close>

datatype error = Err errClass string

definition thrown :: "error \<Rightarrow> jsval" where
  "thrown e = (case e of Err c m \<Rightarrow>
     JError (case c of Error \<Rightarrow> ''Error'' | TypeError \<Rightarrow> ''TypeError'' | RangeError \<Rightarrow> ''RangeError'') m)"

subsection \<open>Decimal and hexadecimal rendering\<close>

definition digit :: "nat \<Rightarrow> char" where
  "digit d = ''0123456789abcdef'' ! d"

fun radix :: "nat \<Rightarrow> nat \<Rightarrow> string" where
  "radix b n = (if b < 2 \<or> n < b then [digit n] else radix b (n div b) @ [digit (n mod b)])"

declare radix.simps [simp del]

text \<open>\<^verbatim>\<open>`${i}`\<close> for an array index and \<^verbatim>\<open>n.toString(16)\<close> for a non-negative integer.\<close>

definition decimal :: "nat \<Rightarrow> string" where
  "decimal n = radix 10 n"

definition toString16 :: "nat \<Rightarrow> string" where
  "toString16 n = radix 16 n"

definition padStart :: "nat \<Rightarrow> char \<Rightarrow> string \<Rightarrow> string" where
  "padStart n c s = replicate (n - length s) c @ s"

definition padEnd :: "nat \<Rightarrow> string \<Rightarrow> string" where
  "padEnd n s = s @ replicate (n - length s) CHR '' ''"

text \<open>The property key a primitive turns into when used as \<^verbatim>\<open>obj[key]\<close>.\<close>

fun propertyKey :: "prim \<Rightarrow> string" where
  "propertyKey PUndefined = ''undefined''"
| "propertyKey PNull = ''null''"
| "propertyKey (PBool b) = (if b then ''true'' else ''false'')"
| "propertyKey (PNum n) = (if n < 0 then CHR ''-'' # decimal (nat (- n)) else decimal (nat n))"
| "propertyKey (PStr s) = s"

subsection \<open>The level table\<close>

definition levels :: "(nat \<times> string) list" where
  "levels = [(1, ''FATAL''), (2, ''ERROR''), (3, ''WARN''), (4, ''INFO''), (5, ''DEBUG''), (6, ''TRACE'')]"

definition levelNums :: "(string \<times> nat) list" where
  "levelNums = [(''FATAL'', 1), (''ERROR'', 2), (''WARN'', 3), (''INFO'', 4), (''DEBUG'', 5), (''TRACE'', 6)]"

definition FATAL :: nat where "FATAL = the (map_of levelNums ''FATAL'')"
definition ERROR :: nat where "ERROR = the (map_of levelNums ''ERROR'')"
definition WARN :: nat where "WARN = the (map_of levelNums ''WARN'')"
definition INFO :: nat where "INFO = the (map_of levelNums ''INFO'')"
definition DEBUG :: nat where "DEBUG = the (map_of levelNums ''DEBUG'')"
definition TRACE :: nat where "TRACE = the (map_of levelNums ''TRACE'')"

text \<open>
  \<^verbatim>\<open>levelNums\<close> is a plain object, so \<^verbatim>\<open>levelNums[key]\<close> also finds what
  \<^verbatim>\<open>Object.prototype\<close> provides; those members are functions or objects, never
  \<^verbatim>\<open>undefined\<close>.
\<close>

definition objectPrototype :: "string list" where
  "objectPrototype = [''constructor'', ''__defineGetter__'', ''__defineSetter__'',
     ''hasOwnProperty'', ''__lookupGetter__'', ''__lookupSetter__'', ''isPrototypeOf'',
     ''propertyIsEnumerable'', ''toString'', ''valueOf'', ''__proto__'', ''toLocaleString'']"

datatype levelValue = Rank nat | ProtoMember string

definition levelNums_get :: "prim \<Rightarrow> levelValue option" where
  "levelNums_get key =
     (case map_of levelNums (propertyKey key) of
        Some n \<Rightarrow> Some (Rank n)
      | None \<Rightarrow> if propertyKey key \<in> set objectPrototype
                then Some (ProtoMember (propertyKey key)) else None)"

text \<open>\<^verbatim>\<open>levels[level]\<close> inside the diagnostic payload of a recovery event.\<close>

definition levels_get :: "nat \<Rightarrow> jsval" where
  "levels_get level = (case map_of levels level of Some name \<Rightarrow> JStr name | None \<Rightarrow> JUndefined)"

section \<open>Target normalisation\<close>

datatype policy = THROW | LOG | IGNORE

datatype logFormat = JSON | TEXT

text \<open>
  \<^verbatim>\<open>if (level && levelNums[level] === undefined) throw new TypeError(...);
  return levelNums[level] || levelNums.TRACE;\<close>
\<close>

definition logLevelNum :: "prim \<Rightarrow> error + levelValue" where
  "logLevelNum level =
     (if truthy level \<and> levelNums_get level = None
      then Inl (Err TypeError
             (''log level must be one of 'TRACE', 'DEBUG', 'INFO', 'WARN', 'ERROR', 'FATAL'. Received ''
              @ propertyKey level @ '' instead''))
      else Inr (case levelNums_get level of
                  Some (Rank n) \<Rightarrow> if n \<noteq> 0 then Rank n else Rank TRACE
                | Some (ProtoMember k) \<Rightarrow> ProtoMember k
                | None \<Rightarrow> Rank TRACE))"

fun logStyle :: "prim \<Rightarrow> error + logFormat" where
  "logStyle (PStr s) =
     (if s = ''JSON'' then Inr JSON
      else if s = ''TEXT'' then Inr TEXT
      else Inl (Err TypeError (''log style must be one of 'JSON', 'TEXT'' @ [CHR 0x27])))"
| "logStyle PUndefined = Inr TEXT"
| "logStyle PNull = Inr TEXT"
| "logStyle _ = Inl (Err TypeError (''log style must be one of 'JSON', 'TEXT'' @ [CHR 0x27]))"

fun errorPolicy :: "prim \<Rightarrow> error + policy" where
  "errorPolicy (PStr s) =
     (if s = ''THROW'' then Inr THROW
      else if s = ''LOG'' then Inr LOG
      else if s = ''IGNORE'' then Inr IGNORE
      else Inl (Err TypeError (''error policy must be one of 'THROW', 'LOG' or 'IGNORE'' @ [CHR 0x27])))"
| "errorPolicy PUndefined = Inr LOG"
| "errorPolicy PNull = Inr LOG"
| "errorPolicy _ = Inl (Err TypeError (''error policy must be one of 'THROW', 'LOG' or 'IGNORE'' @ [CHR 0x27]))"

text \<open>
  A \<^verbatim>\<open>fs.WriteStream\<close> object on the heap; a stream handle is its index. The model
  counts the calls of \<^verbatim>\<open>stream.destroy()\<close> on it.
\<close>

datatype pathLike = PathString string | PathBuffer | PathURL | PathOther

record writeStream =
  ws_path :: pathLike
  ws_flags :: string
  ws_errorListener :: bool
  ws_destroyCalls :: nat

type_synonym heap = "writeStream list"

definition stream_destroy :: "nat \<Rightarrow> heap \<Rightarrow> heap" where
  "stream_destroy h hp = hp[h := (hp ! h)\<lparr>ws_destroyCalls := Suc (ws_destroyCalls (hp ! h))\<rparr>]"

text \<open>
  A target descriptor as the caller writes it (\<^verbatim>\<open>Target\<close> of the type declarations).
  \<^verbatim>\<open>stream\<close> and \<^verbatim>\<open>function\<close> are \<open>Some\<close> handle when the value passes the
  \<^verbatim>\<open>instanceof\<close> test and \<open>None\<close> otherwise. The three flags are booleans or absent.
\<close>

datatype targetType =
    FileTarget pathLike bool bool
  | StreamTarget "nat option"
  | PostTarget string "bool option" "(string \<times> string) list option"
  | StdOutTarget
  | FunctionTarget "nat option"
  | OtherTarget string

record Target =
  d_type :: targetType
  d_logLevel :: prim
  d_color :: "bool option"
  d_uniformLength :: "bool option"
  d_style :: prim
  d_fullTimestamps :: "bool option"
  d_errorPolicy :: prim

text \<open>The canonical target (\<^verbatim>\<open>ParsedTarget\<close>): where it writes, and the shared options.\<close>

datatype sink =
    STREAM nat bool
  | FUNCTION nat
  | HTTP string "(string \<times> string) list"
  | HTTPS string "(string \<times> string) list"

text \<open>\<^verbatim>\<open>console.log\<close>, the callable of a \<^verbatim>\<open>STDOUT\<close> target, has handle 0.\<close>

definition console_log :: nat where
  "console_log = 0"

record ParsedTarget =
  t_sink :: sink
  t_level :: levelValue
  t_color :: bool
  t_uniform :: bool
  t_format :: logFormat
  t_fullTimestamps :: bool
  t_errorPolicy :: policy

definition orFalse :: "bool option \<Rightarrow> bool" where
  "orFalse b = (case b of None \<Rightarrow> False | Some v \<Rightarrow> v)"

definition baseTargetOptions :: "Target \<Rightarrow> sink \<Rightarrow> error + ParsedTarget" where
  "baseTargetOptions target s =
     (case logLevelNum (d_logLevel target) of
        Inl e \<Rightarrow> Inl e
      | Inr lv \<Rightarrow>
          (case logStyle (d_style target) of
             Inl e \<Rightarrow> Inl e
           | Inr fm \<Rightarrow>
               (case errorPolicy (d_errorPolicy target) of
                  Inl e \<Rightarrow> Inl e
                | Inr pol \<Rightarrow>
                    Inr \<lparr>t_sink = s, t_level = lv, t_color = orFalse (d_color target),
                         t_uniform = orFalse (d_uniformLength target), t_format = fm,
                         t_fullTimestamps = orFalse (d_fullTimestamps target),
                         t_errorPolicy = pol\<rparr>)))"

definition startsWith :: "string \<Rightarrow> string \<Rightarrow> bool" where
  "startsWith s p = (take (length p) s = p)"

text \<open>\<^verbatim>\<open>path.split("\\").join("/")\<close> and the expansion of a leading \<^verbatim>\<open>~/\<close>.\<close>

definition slashes :: "string \<Rightarrow> string" where
  "slashes s = map (\<lambda>c. if c = CHR 0x5C then CHR ''/'' else c) s"

definition createStream :: "string \<Rightarrow> heap \<Rightarrow> pathLike \<Rightarrow> bool \<Rightarrow> (error + nat) \<times> heap" where
  "createStream homedir hp path failIfExists =
     (case path of
        PathOther \<Rightarrow> (Inl (Err Error ''path must be a string''), hp)
      | _ \<Rightarrow>
        (let path' = (case path of
                        PathString p \<Rightarrow>
                          (let q = slashes p
                           in PathString (if startsWith q ''~/'' then slashes homedir @ drop 1 q else q))
                      | other \<Rightarrow> other)
         in (Inr (length hp),
             hp @ [\<lparr>ws_path = path', ws_flags = (if failIfExists then ''ax'' else ''a''),
                    ws_errorListener = False, ws_destroyCalls = 0\<rparr>])))"

definition postOptions :: "(string \<times> string) list" where
  "postOptions = [(''method'', ''POST'')]"

text \<open>Object spread \<^verbatim>\<open>{ ...a, ...b }\<close> on string-valued option objects.\<close>

definition spread :: "(string \<times> string) list \<Rightarrow> (string \<times> string) list \<Rightarrow> (string \<times> string) list" where
  "spread a b = fold (\<lambda>(k, v). AList.update k v) b a"

text \<open>One iteration of the loop of \<^verbatim>\<open>createLoggerFactory\<close>: the \<^verbatim>\<open>switch\<close> on the type.\<close>

definition parseTarget :: "string \<Rightarrow> heap \<Rightarrow> Target \<Rightarrow> (error + ParsedTarget) \<times> heap" where
  "parseTarget homedir hp target =
     (case d_type target of
        FileTarget path failIfExists errorListener \<Rightarrow>
          (case createStream homedir hp path failIfExists of
             (Inl e, hp') \<Rightarrow> (Inl e, hp')
           | (Inr h, hp') \<Rightarrow>
               (let hp'' = (if errorListener then hp'[h := (hp' ! h)\<lparr>ws_errorListener := True\<rparr>] else hp')
                in (baseTargetOptions target (STREAM h True), hp'')))
      | StreamTarget st \<Rightarrow>
          (case st of
             None \<Rightarrow> (Inl (Err Error ''stream must be a WriteStream''), hp)
           | Some h \<Rightarrow> (baseTargetOptions target (STREAM h False), hp))
      | PostTarget url https options \<Rightarrow>
          (let opts = (case options of Some o' \<Rightarrow> spread o' postOptions | None \<Rightarrow> postOptions)
           in (baseTargetOptions target
                 (if (case https of None \<Rightarrow> True | Some b \<Rightarrow> b) then HTTPS url opts else HTTP url opts), hp))
      | StdOutTarget \<Rightarrow> (baseTargetOptions target (FUNCTION console_log), hp)
      | FunctionTarget fn \<Rightarrow>
          (case fn of
             None \<Rightarrow> (Inl (Err Error ''function must be a Function''), hp)
           | Some f \<Rightarrow> (baseTargetOptions target (FUNCTION f), hp))
      | OtherTarget tag \<Rightarrow> (Inl (Err TypeError ''Invalid target type''), hp))"

section \<open>The factory and its loggers\<close>

record LoggerFactory =
  targets :: "ParsedTarget list option"
  maxSourceLength :: nat
  destroyed :: bool

definition LoggerFactory_new :: "ParsedTarget list option \<Rightarrow> LoggerFactory" where
  "LoggerFactory_new ts = \<lparr>targets = ts, maxSourceLength = 0, destroyed = False\<rparr>"

text \<open>The loop over the descriptors; a throw leaves the streams opened so far on the heap.\<close>

fun parseTargets :: "string \<Rightarrow> heap \<Rightarrow> Target list \<Rightarrow> ParsedTarget list \<Rightarrow> (error + ParsedTarget list) \<times> heap" where
  "parseTargets homedir hp [] parsedTargets = (Inr parsedTargets, hp)"
| "parseTargets homedir hp (target # rest) parsedTargets =
     (case parseTarget homedir hp target of
        (Inl e, hp') \<Rightarrow> (Inl e, hp')
      | (Inr t, hp') \<Rightarrow> parseTargets homedir hp' rest (parsedTargets @ [t]))"

datatype 'a oneOrMany = One 'a | Many "'a list"

definition createLoggerFactory :: "string \<Rightarrow> heap \<Rightarrow> Target oneOrMany \<Rightarrow> (error + LoggerFactory) \<times> heap" where
  "createLoggerFactory homedir hp targets' =
     (let ts = (case targets' of One t \<Rightarrow> [t] | Many l \<Rightarrow> l)
      in case parseTargets homedir hp ts [] of
           (Inl e, hp') \<Rightarrow> (Inl e, hp')
         | (Inr parsedTargets, hp') \<Rightarrow> (Inr (LoggerFactory_new (Some parsedTargets)), hp'))"

subsection \<open>createLogger\<close>

datatype colorSpec = ColorNull | ColorString string | ColorNumber int | ColorArray "prim list"

definition isByte :: "prim \<Rightarrow> bool" where
  "isByte v = (case v of PNum n \<Rightarrow> 0 \<le> n \<and> n < 256 | _ \<Rightarrow> False)"

definition numberOf :: "prim \<Rightarrow> int" where
  "numberOf v = (case v of PNum n \<Rightarrow> n | _ \<Rightarrow> 0)"

text \<open>
  \<^verbatim>\<open>if (Array.isArray(color)) { if (!color.every(...) || color.length !== 3) throw ...;
  color = (color[0] << 16) + (color[1] << 8) + color[2]; }\<close>
\<close>

definition packArray :: "colorSpec \<Rightarrow> error + colorSpec" where
  "packArray color =
     (case color of
        ColorArray vs \<Rightarrow>
          if \<not> list_all isByte vs \<or> length vs \<noteq> 3
          then Inl (Err TypeError ''Expected sourceColor to be an array of 3 numbers between 0 and 255'')
          else Inr (ColorNumber (numberOf (vs ! 0) * 2 ^ 16 + numberOf (vs ! 1) * 2 ^ 8 + numberOf (vs ! 2)))
      | _ \<Rightarrow> Inr color)"

text \<open>
  \<^verbatim>\<open>if (typeof color === "number") { if (!(color >= 0 && color < (1 << 24))) throw ...;
  color = color.toString(16).padStart(6, "0"); }\<close>
  Afterwards the colour is a string or null.
\<close>

definition hexOfNumber :: "colorSpec \<Rightarrow> error + string option" where
  "hexOfNumber color =
     (case color of
        ColorNumber n \<Rightarrow>
          if \<not> (0 \<le> n \<and> n < 2 ^ 24)
          then Inl (Err RangeError ''Expected sourceColor to be in range 0 to 16777215'')
          else Inr (Some (padStart 6 CHR ''0'' (toString16 (nat n))))
      | ColorString s \<Rightarrow> Inr (Some s)
      | _ \<Rightarrow> Inr None)"

definition isHexDigit :: "char \<Rightarrow> bool" where
  "isHexDigit c = (c \<in> set ''0123456789abcdefABCDEF'')"

text \<open>\<^verbatim>\<open>/^[0-9a-fA-F]{6}$/.test(color)\<close>\<close>

definition isHexColor :: "string \<Rightarrow> bool" where
  "isHexColor s = (length s = 6 \<and> list_all isHexDigit s)"

text \<open>
  A logger. Its fourth field \<^verbatim>\<open>manager\<close> is a reference to the factory, a shared
  mutable object: the operations below receive the state of that object instead. The
  colour is \<open>Some hex\<close> for \<^verbatim>\<open>chalk.hex(hex)\<close> and \<open>None\<close> for \<^verbatim>\<open>noColor\<close>.
\<close>

record Logger =
  component :: string
  source :: "string option"
  color :: "string option"

definition createLogger ::
  "LoggerFactory \<Rightarrow> string \<Rightarrow> string option \<Rightarrow> colorSpec \<Rightarrow> (error + Logger) \<times> LoggerFactory" where
  "createLogger this component' source' sourceColor =
     (if destroyed this then (Inl (Err Error ''LoggerFacotry has been destroyed''), this)
      else case packArray sourceColor of
        Inl e \<Rightarrow> (Inl e, this)
      | Inr color1 \<Rightarrow>
        (case hexOfNumber color1 of
           Inl e \<Rightarrow> (Inl e, this)
         | Inr color2 \<Rightarrow>
           (let color3 = (case color2 of
                            Some s \<Rightarrow> if s \<noteq> [] \<and> startsWith s ''#'' then Some (drop 1 s) else Some s
                          | None \<Rightarrow> None)
            in if (case color3 of Some s \<Rightarrow> s \<noteq> [] \<and> \<not> isHexColor s | None \<Rightarrow> False)
               then (Inl (Err RangeError ''Expected sourceColor to be a hex string of length 6''), this)
               else
                 (let color4 = (case color3 of Some s \<Rightarrow> if s \<noteq> [] then Some s else None | None \<Rightarrow> None);
                      sourceLength = int (length component') + 1 +
                                     (case source' of Some s \<Rightarrow> int (length s) | None \<Rightarrow> - 1);
                      this' = (if sourceLength > int (maxSourceLength this)
                               then this\<lparr>maxSourceLength := nat sourceLength\<rparr> else this)
                  in (Inr \<lparr>component = component', source = source', color = color4\<rparr>, this')))))"

subsection \<open>destroy\<close>

text \<open>
  \<^verbatim>\<open>if (this.destroyed) return; this.destroyed = true;
  this.targets.filter(v => v.type === "STREAM" && v.private === true).forEach(v => v.stream.destroy());
  this.targets = null;\<close>
  The first component of the result is the exception, if one is thrown.
\<close>

definition privateStream :: "ParsedTarget \<Rightarrow> nat option" where
  "privateStream v = (case t_sink v of STREAM h p \<Rightarrow> if p then Some h else None | _ \<Rightarrow> None)"

definition destroy :: "LoggerFactory \<Rightarrow> heap \<Rightarrow> error option \<times> LoggerFactory \<times> heap" where
  "destroy this hp =
     (if destroyed this then (None, this, hp)
      else case targets this of
        None \<Rightarrow> (Some (Err TypeError ''Cannot read properties of null''), this\<lparr>destroyed := True\<rparr>, hp)
      | Some ts \<Rightarrow>
          (None, this\<lparr>destroyed := True, targets := None\<rparr>,
           fold stream_destroy (List.map_filter privateStream ts) hp))"

section \<open>Formatting\<close>

text \<open>
  The rendering itself is done by collaborators outside the repository (\<^verbatim>\<open>chalk\<close>,
  \<^verbatim>\<open>util.inspect\<close>, \<^verbatim>\<open>stringifySafe\<close>, \<^verbatim>\<open>Date\<close>). The payload handed to a
  sink is therefore kept as the arguments \<^verbatim>\<open>format\<close> was called with; the part of the
  text this development needs, the padded display name, is computed from them. Rendering is
  taken to succeed: \<^verbatim>\<open>format\<close> throws nothing here.
\<close>

record content =
  c_messages :: "jsval list"
  c_level :: nat
  c_component :: string
  c_source :: "string option"
  c_sourceColor :: "string option"
  c_uniform :: bool
  c_maxSourceLength :: nat
  c_format :: logFormat
  c_color :: bool
  c_timestamp :: nat
  c_fullTimestamps :: bool

definition format ::
  "jsval list \<Rightarrow> nat \<Rightarrow> string \<Rightarrow> string option \<Rightarrow> string option \<Rightarrow> bool \<Rightarrow> nat \<Rightarrow> logFormat \<Rightarrow> bool \<Rightarrow> nat \<Rightarrow> bool \<Rightarrow> content" where
  "format messages level component' source' sourceColor uniform maxSourceLength' format' color' timestamp fullTimestamps =
     \<lparr>c_messages = messages, c_level = level, c_component = component', c_source = source',
      c_sourceColor = sourceColor, c_uniform = uniform, c_maxSourceLength = maxSourceLength',
      c_format = format', c_color = color', c_timestamp = timestamp, c_fullTimestamps = fullTimestamps\<rparr>"

text \<open>
  \<^verbatim>\<open>(component + (source ? "/" + source : "")).padEnd(uniform * maxSourceLength)\<close>, the
  text that \<^verbatim>\<open>styledSource\<close> colours.
\<close>

definition paddedSource :: "content \<Rightarrow> string" where
  "paddedSource c =
     padEnd (if c_uniform c then c_maxSourceLength c else 0)
       (c_component c @ (case c_source c of Some s \<Rightarrow> if s \<noteq> [] then ''/'' @ s else [] | None \<Rightarrow> []))"

section \<open>The dispatcher\<close>

text \<open>
  Time is a logical clock in milliseconds; \<^verbatim>\<open>Date.now()\<close> reads it. A sink operation
  started at some time is acknowledged or fails after a latency; the world says which, for
  every start time, sink and payload. \<open>Fail d e\<close> covers a rejected promise, an error
  passed to the write callback and an exception thrown by a callable.
\<close>

datatype ack = Ack nat | Fail nat jsval

record world =
  writeToStream :: "nat \<Rightarrow> nat \<Rightarrow> content \<Rightarrow> ack"
  callFunction :: "nat \<Rightarrow> nat \<Rightarrow> content \<Rightarrow> ack"
  postRequest :: "nat \<Rightarrow> bool \<Rightarrow> string \<Rightarrow> content \<Rightarrow> (string \<times> string) list \<Rightarrow> ack"

text \<open>A settled promise: when it settled, and the reason if it was rejected.\<close>

datatype promise = Fulfilled nat | Rejected nat jsval

fun settleTime :: "promise \<Rightarrow> nat" where
  "settleTime (Fulfilled t) = t"
| "settleTime (Rejected t e) = t"

text \<open>
  What one call of \<^verbatim>\<open>_log\<close> did: its timestamp, one slot per target in list order, and
  the promise it returned. A slot is skipped, or records the payload, the answer of the
  sink, the recovery dispatch started from the \<^verbatim>\<open>catch\<close> block (if any) and the promise
  of the target's async function.
\<close>

datatype dispatch = Dispatch nat "slot list" promise
  and slot = Skipped | Invoked content ack "dispatch option" promise

fun timestampOf :: "dispatch \<Rightarrow> nat" where
  "timestampOf (Dispatch t ss p) = t"

fun slots :: "dispatch \<Rightarrow> slot list" where
  "slots (Dispatch t ss p) = ss"

fun settled :: "dispatch \<Rightarrow> promise" where
  "settled (Dispatch t ss p) = p"

fun slotPromise :: "slot \<Rightarrow> promise option" where
  "slotPromise Skipped = None"
| "slotPromise (Invoked c a r p) = Some p"

fun recovery :: "slot \<Rightarrow> dispatch option" where
  "recovery Skipped = None"
| "recovery (Invoked c a r p) = r"

fun payload :: "slot \<Rightarrow> content option" where
  "payload Skipped = None"
| "payload (Invoked c a r p) = Some c"

text \<open>\<^verbatim>\<open>v.level < level\<close>; a prototype member compared with a number is never smaller.\<close>

fun levelBelow :: "levelValue \<Rightarrow> nat \<Rightarrow> bool" where
  "levelBelow (Rank m) level = (m < level)"
| "levelBelow (ProtoMember k) level = False"

text \<open>The \<^verbatim>\<open>switch (v.type)\<close> inside the \<^verbatim>\<open>try\<close> block.\<close>

definition invoke :: "world \<Rightarrow> nat \<Rightarrow> sink \<Rightarrow> content \<Rightarrow> ack" where
  "invoke w now s content =
     (case s of
        STREAM h p \<Rightarrow> writeToStream w now h content
      | FUNCTION f \<Rightarrow> callFunction w now f content
      | HTTP url opts \<Rightarrow> postRequest w now False url content opts
      | HTTPS url opts \<Rightarrow> postRequest w now True url content opts)"

text \<open>
  \<^verbatim>\<open>Promise.all\<close>: rejected as soon as the first of its promises is rejected, and
  fulfilled once all of them are fulfilled; at once for the empty list. The clock does not
  order two rejections within the same millisecond: as a convention of the model the one
  earliest in the list is taken then, where the code takes whichever came first.
\<close>

fun firstRejection :: "promise list \<Rightarrow> (nat \<times> jsval) option" where
  "firstRejection [] = None"
| "firstRejection (Fulfilled t # ps) = firstRejection ps"
| "firstRejection (Rejected t e # ps) =
     (case firstRejection ps of
        None \<Rightarrow> Some (t, e)
      | Some (t', e') \<Rightarrow> if t' < t then Some (t', e') else Some (t, e))"

definition Promise_all :: "nat \<Rightarrow> promise list \<Rightarrow> promise" where
  "Promise_all now ps =
     (case firstRejection ps of
        Some (t, e) \<Rightarrow> Rejected t e
      | None \<Rightarrow> Fulfilled (fold max (map settleTime ps) now))"

text \<open>
  \<^verbatim>\<open>_log(targets, messages, level, logger, maxSourceLength)\<close> and the async arrow function
  it maps over the targets. \<open>manager\<close> is the state of \<^verbatim>\<open>logger.manager\<close> at each time:
  the getter \<^verbatim>\<open>logger.destroyed\<close> reads it when the call starts and again in the
  \<^verbatim>\<open>catch\<close> block, after the sink has failed. \<^verbatim>\<open>.filter(v => v)\<close> drops the skipped
  targets before \<^verbatim>\<open>Promise.all\<close>.
\<close>

function log' ::
    "world \<Rightarrow> (nat \<Rightarrow> LoggerFactory) \<Rightarrow> ParsedTarget list option \<Rightarrow> jsval list \<Rightarrow> nat \<Rightarrow> Logger \<Rightarrow> nat \<Rightarrow> nat \<Rightarrow> error + dispatch"
  and attempt ::
    "world \<Rightarrow> (nat \<Rightarrow> LoggerFactory) \<Rightarrow> ParsedTarget list \<Rightarrow> jsval list \<Rightarrow> nat \<Rightarrow> Logger \<Rightarrow> nat \<Rightarrow> nat \<Rightarrow> ParsedTarget \<Rightarrow> nat \<Rightarrow> slot"
where
  "log' w manager targets' messages level logger maxSourceLength' now =
     (if destroyed (manager now) then Inl (Err Error ''Logger has been destroyed'')
      else case targets' of
        None \<Rightarrow> Inl (Err TypeError ''Cannot read properties of null'')
      | Some ts \<Rightarrow>
          (let timestamp = now;
               ss = map (\<lambda>(i, v). attempt w manager ts messages level logger maxSourceLength' timestamp v i)
                        (enumerate 0 ts)
           in Inr (Dispatch timestamp ss (Promise_all now (List.map_filter slotPromise ss)))))"
| "attempt w manager ts messages level logger maxSourceLength' timestamp v i =
     (if levelBelow (t_level v) level then Skipped
      else
        (let content = format messages level (component logger) (source logger) (color logger) (t_uniform v)
                         maxSourceLength' (t_format v) (t_color v) timestamp (t_fullTimestamps v);
             a = invoke w timestamp (t_sink v) content
         in case a of
              Ack d \<Rightarrow> Invoked content a None (Fulfilled (timestamp + d))
            | Fail d e \<Rightarrow>
                (case t_errorPolicy v of
                   THROW \<Rightarrow> Invoked content a None (Rejected (timestamp + d) e)
                 | LOG \<Rightarrow>
                     if \<not> destroyed (manager (timestamp + d))
                     then (case log' w manager (Some (map (\<lambda>v. v\<lparr>t_errorPolicy := IGNORE\<rparr>) ts))
                                  [JStr (''Failed to log to target '' @ decimal i @ '':''),
                                   JObj [(''timestamp'', JNum (int timestamp)), (''level'', levels_get level),
                                         (''messages'', JArr messages), (''error'', e)]]
                                  (min level ERROR) logger maxSourceLength' (timestamp + d) of
                             Inl err \<Rightarrow> Invoked content a None (Rejected (timestamp + d) (thrown err))
                           | Inr r \<Rightarrow> Invoked content a (Some r) (settled r))
                     else Invoked content a None (Fulfilled (timestamp + d))
                 | IGNORE \<Rightarrow> Invoked content a None (Fulfilled (timestamp + d)))))"
  by pat_completeness auto
termination
  apply (relation "measure (\<lambda>x. case x of
           Inl (w, m, ts, ms, l, lg, msl, now) \<Rightarrow>
             (case ts of None \<Rightarrow> 0 | Some ts' \<Rightarrow> if list_ex (\<lambda>v. t_errorPolicy v = LOG) ts' then 3 else 1)
         | Inr (w, m, ts, ms, l, lg, msl, now, v, i) \<Rightarrow> if t_errorPolicy v = LOG then 2 else 0)")
    apply (auto simp: list_ex_iff in_set_enumerate_eq)
  using nth_mem apply blast
  done

declare log'.simps [simp del] attempt.simps [simp del]

subsection \<open>The six methods of a logger\<close>

text \<open>
  Each method reads \<^verbatim>\<open>this.manager.targets\<close> and \<^verbatim>\<open>this.manager.maxSourceLength\<close>
  when it is called, at time \<open>now\<close>.
\<close>

definition Logger_trace :: "world \<Rightarrow> (nat \<Rightarrow> LoggerFactory) \<Rightarrow> Logger \<Rightarrow> jsval list \<Rightarrow> nat \<Rightarrow> error + dispatch" where
  "Logger_trace w manager this messages now =
     log' w manager (targets (manager now)) messages TRACE this (maxSourceLength (manager now)) now"

definition Logger_debug :: "world \<Rightarrow> (nat \<Rightarrow> LoggerFactory) \<Rightarrow> Logger \<Rightarrow> jsval list \<Rightarrow> nat \<Rightarrow> error + dispatch" where
  "Logger_debug w manager this messages now =
     log' w manager (targets (manager now)) messages DEBUG this (maxSourceLength (manager now)) now"

definition Logger_info :: "world \<Rightarrow> (nat \<Rightarrow> LoggerFactory) \<Rightarrow> Logger \<Rightarrow> jsval list \<Rightarrow> nat \<Rightarrow> error + dispatch" where
  "Logger_info w manager this messages now =
     log' w manager (targets (manager now)) messages INFO this (maxSourceLength (manager now)) now"

definition Logger_warn :: "world \<Rightarrow> (nat \<Rightarrow> LoggerFactory) \<Rightarrow> Logger \<Rightarrow> jsval list \<Rightarrow> nat \<Rightarrow> error + dispatch" where
  "Logger_warn w manager this messages now =
     log' w manager (targets (manager now)) messages WARN this (maxSourceLength (manager now)) now"

definition Logger_error :: "world \<Rightarrow> (nat \<Rightarrow> LoggerFactory) \<Rightarrow> Logger \<Rightarrow> jsval list \<Rightarrow> nat \<Rightarrow> error + dispatch" where
  "Logger_error w manager this messages now =
     log' w manager (targets (manager now)) messages ERROR this (maxSourceLength (manager now)) now"

definition Logger_fatal :: "world \<Rightarrow> (nat \<Rightarrow> LoggerFactory) \<Rightarrow> Logger \<Rightarrow> jsval list \<Rightarrow> nat \<Rightarrow> error + dispatch" where
  "Logger_fatal w manager this messages now =
     log' w manager (targets (manager now)) messages FATAL this (maxSourceLength (manager now)) now"

text \<open>How many recovery dispatches are nested inside a dispatch.\<close>

fun depth :: "dispatch \<Rightarrow> nat"
  and slotDepth :: "slot \<Rightarrow> nat" where
  "depth (Dispatch t ss p) = fold max (map slotDepth ss) 0"
| "slotDepth Skipped = 0"
| "slotDepth (Invoked c a r p) = (case r of None \<Rightarrow> 0 | Some d \<Rightarrow> Suc (depth d))"

section \<open>Sequences of calls on one factory\<close>

text \<open>
  The factory object together with the heap of streams. A call is made at a time; a log
  call also fixes what the factory object will look like while its deliveries are in
  flight (\<open>future\<close>), the state at the time of the call being the current one.
\<close>

record system =
  factory :: LoggerFactory
  streams :: heap

datatype levelMethod = Trace | Debug | Info | Warn | Error' | Fatal

datatype call =
    CreateLogger string "string option" colorSpec
  | Destroy
  | Log levelMethod "Logger" "jsval list"

datatype outcome = Threw error | NewLogger Logger | Returned | Promised dispatch

definition Logger_call ::
  "levelMethod \<Rightarrow> world \<Rightarrow> (nat \<Rightarrow> LoggerFactory) \<Rightarrow> Logger \<Rightarrow> jsval list \<Rightarrow> nat \<Rightarrow> error + dispatch" where
  "Logger_call m =
     (case m of Trace \<Rightarrow> Logger_trace | Debug \<Rightarrow> Logger_debug | Info \<Rightarrow> Logger_info
              | Warn \<Rightarrow> Logger_warn | Error' \<Rightarrow> Logger_error | Fatal \<Rightarrow> Logger_fatal)"

definition step :: "world \<Rightarrow> (nat \<Rightarrow> LoggerFactory) \<Rightarrow> nat \<Rightarrow> call \<Rightarrow> system \<Rightarrow> outcome \<times> system" where
  "step w future now c s =
     (case c of
        CreateLogger component' source' sourceColor \<Rightarrow>
          (case createLogger (factory s) component' source' sourceColor of
             (Inl e, f) \<Rightarrow> (Threw e, s\<lparr>factory := f\<rparr>)
           | (Inr logger, f) \<Rightarrow> (NewLogger logger, s\<lparr>factory := f\<rparr>))
      | Destroy \<Rightarrow>
          (case destroy (factory s) (streams s) of
             (Some e, f, hp) \<Rightarrow> (Threw e, \<lparr>factory = f, streams = hp\<rparr>)
           | (None, f, hp) \<Rightarrow> (Returned, \<lparr>factory = f, streams = hp\<rparr>))
      | Log m logger messages \<Rightarrow>
          (case Logger_call m w (future(now := factory s)) logger messages now of
             Inl e \<Rightarrow> (Threw e, s)
           | Inr d \<Rightarrow> (Promised d, s)))"

fun run :: "world \<Rightarrow> (nat \<Rightarrow> LoggerFactory) \<Rightarrow> (nat \<times> call) list \<Rightarrow> system \<Rightarrow> outcome list \<times> system" where
  "run w future [] s = ([], s)"
| "run w future ((now, c) # cs) s =
     (case step w future now c s of
        (r, s') \<Rightarrow> (case run w future cs s' of (rs, s'') \<Rightarrow> (r # rs, s'')))"

section \<open>Auxiliary notions and example configurations\<close>

text \<open>
  The failure of an admitted target with policy \<^verbatim>\<open>THROW\<close>: when its sink fails and with
  what reason; \<open>None\<close> for a target that is skipped, has another policy or is acknowledged.
\<close>

definition throwFailure ::
  "world \<Rightarrow> jsval list \<Rightarrow> nat \<Rightarrow> Logger \<Rightarrow> nat \<Rightarrow> nat \<Rightarrow> ParsedTarget \<Rightarrow> (nat \<times> jsval) option" where
  "throwFailure w messages level logger msl now v =
     (if levelBelow (t_level v) level \<or> t_errorPolicy v \<noteq> THROW then None
      else case invoke w now (t_sink v)
                  (format messages level (component logger) (source logger) (color logger) (t_uniform v)
                     msl (t_format v) (t_color v) now (t_fullTimestamps v)) of
             Ack d \<Rightarrow> None
           | Fail d e \<Rightarrow> Some (now + d, e))"

text \<open>What each call returns or throws once the factory has been destroyed.\<close>

definition afterDestroy :: "call \<Rightarrow> outcome" where
  "afterDestroy c =
     (case c of
        CreateLogger component' source' sourceColor \<Rightarrow> Threw (Err Error ''LoggerFacotry has been destroyed'')
      | Destroy \<Rightarrow> Returned
      | Log m logger messages \<Rightarrow> Threw (Err Error ''Logger has been destroyed''))"

text \<open>
  Concrete descriptors, targets, factories, streams and a world on which the theorems are
  exercised. \<open>plainTarget\<close> is a \<^verbatim>\<open>STDOUT\<close> descriptor whose \<^verbatim>\<open>logLevel\<close> is the
  empty string and whose other options are absent.
\<close>

definition plainTarget :: Target where
  "plainTarget = \<lparr>d_type = StdOutTarget, d_logLevel = PStr '''', d_color = None,
     d_uniformLength = None, d_style = PUndefined, d_fullTimestamps = None,
     d_errorPolicy = PUndefined\<rparr>"

definition smallFactory :: LoggerFactory where
  "smallFactory = \<lparr>targets = Some [], maxSourceLength = 3, destroyed = False\<rparr>"

definition boom :: jsval where
  "boom = JError ''Error'' ''boom''"

definition failingTarget :: ParsedTarget where
  "failingTarget = \<lparr>t_sink = FUNCTION 1, t_level = Rank 6, t_color = False, t_uniform = True,
     t_format = TEXT, t_fullTimestamps = False, t_errorPolicy = LOG\<rparr>"

definition throwingTarget :: ParsedTarget where
  "throwingTarget = \<lparr>t_sink = FUNCTION 2, t_level = Rank 6, t_color = False, t_uniform = False,
     t_format = TEXT, t_fullTimestamps = False, t_errorPolicy = THROW\<rparr>"

definition errorsOnlyTarget :: ParsedTarget where
  "errorsOnlyTarget = \<lparr>t_sink = STREAM 0 False, t_level = Rank 2, t_color = False, t_uniform = False,
     t_format = JSON, t_fullTimestamps = True, t_errorPolicy = IGNORE\<rparr>"

definition slowTarget :: ParsedTarget where
  "slowTarget = \<lparr>t_sink = FUNCTION 3, t_level = Rank 6, t_color = False, t_uniform = True,
     t_format = TEXT, t_fullTimestamps = False, t_errorPolicy = IGNORE\<rparr>"

definition demoTargets :: "ParsedTarget list" where
  "demoTargets = [failingTarget, errorsOnlyTarget, failingTarget]"

text \<open>
  In \<open>demoWorld\<close> the callable 1 always fails after 2 ms and the callable 2 after 1 ms; every
  other callable is acknowledged after 5 ms, a stream write after 1 ms and a POST after 9 ms.
\<close>

definition demoWorld :: world where
  "demoWorld = \<lparr>writeToStream = (\<lambda>t h c. Ack 1),
     callFunction = (\<lambda>t f c. if f = 1 then Fail 2 boom else if f = 2 then Fail 1 boom else Ack 5),
     postRequest = (\<lambda>t https url c opts. Ack 9)\<rparr>"

text \<open>
  Two histories of a factory object: one that never changes, and one on which
  \<^verbatim>\<open>destroy\<close> is called at time \<open>t0\<close>.
\<close>

definition always :: "LoggerFactory \<Rightarrow> nat \<Rightarrow> LoggerFactory" where
  "always f t = f"

definition destroyedFrom :: "nat \<Rightarrow> LoggerFactory \<Rightarrow> nat \<Rightarrow> LoggerFactory" where
  "destroyedFrom t0 f t = (if t < t0 then f else f\<lparr>destroyed := True, targets := None\<rparr>)"

definition svc :: Logger where
  "svc = \<lparr>component = ''svc'', source = None, color = None\<rparr>"

text \<open>
  A factory with one uniformly padded target, on which logger \<open>a\<close> and then logger
  \<open>abcd\<close> are created.
\<close>

definition factory0 :: LoggerFactory where
  "factory0 = LoggerFactory_new (Some [slowTarget])"

definition factory1 :: LoggerFactory where
  "factory1 = snd (createLogger factory0 ''a'' None ColorNull)"

definition loggerA :: Logger where
  "loggerA = projr (fst (createLogger factory0 ''a'' None ColorNull))"

definition factory2 :: LoggerFactory where
  "factory2 = snd (createLogger factory1 ''abcd'' None ColorNull)"

definition factory3 :: LoggerFactory where
  "factory3 = \<lparr>targets = Some demoTargets, maxSourceLength = 4, destroyed = False\<rparr>"

text \<open>
  A factory that owns stream 0 and borrows stream 1; and a heap with one stream of the
  caller, from which a factory is created with a \<^verbatim>\<open>FILE\<close> and a \<^verbatim>\<open>STREAM\<close> descriptor.
\<close>

definition twoStreams :: heap where
  "twoStreams = [\<lparr>ws_path = PathString ''/var/log/app.log'', ws_flags = ''a'', ws_errorListener = False,
                  ws_destroyCalls = 0\<rparr>,
                 \<lparr>ws_path = PathString ''/tmp/borrowed.log'', ws_flags = ''ax'', ws_errorListener = False,
                  ws_destroyCalls = 0\<rparr>]"

definition streamFactory :: LoggerFactory where
  "streamFactory = LoggerFactory_new (Some
     [errorsOnlyTarget\<lparr>t_sink := STREAM 0 True\<rparr>, errorsOnlyTarget\<lparr>t_sink := STREAM 1 False\<rparr>])"

definition borrowedStream :: writeStream where
  "borrowedStream = \<lparr>ws_path = PathString ''/tmp/borrowed.log'', ws_flags = ''ax'',
     ws_errorListener = False, ws_destroyCalls = 0\<rparr>"

definition ownStream :: writeStream where
  "ownStream = \<lparr>ws_path = PathString ''/home/app/logs/all.log'', ws_flags = ''a'',
     ws_errorListener = True, ws_destroyCalls = 0\<rparr>"

definition fileAndStream :: "Target list" where
  "fileAndStream =
     [plainTarget\<lparr>d_type := FileTarget (PathString ''~/logs/all.log'') False True\<rparr>,
      plainTarget\<lparr>d_type := StreamTarget (Some 0)\<rparr>]"

definition ownFactory :: LoggerFactory where
  "ownFactory = LoggerFactory_new (Some
     [\<lparr>t_sink = STREAM 1 True, t_level = Rank 6, t_color = False, t_uniform = False, t_format = TEXT,
       t_fullTimestamps = False, t_errorPolicy = LOG\<rparr>,
      \<lparr>t_sink = STREAM 0 False, t_level = Rank 6, t_color = False, t_uniform = False, t_format = TEXT,
       t_fullTimestamps = False, t_errorPolicy = LOG\<rparr>])"

section \<open>Evaluation of the constants\<close>

lemmas ex_defs = boom_def failingTarget_def throwingTarget_def errorsOnlyTarget_def slowTarget_def
  demoWorld_def always_def svc_def LoggerFactory_new_def invoke_def format_def Promise_all_def
  List.map_filter_def levels_get_def levels_def thrown_def

lemma TRACE_eq: "TRACE = 6"
  by (simp add: TRACE_def levelNums_def)

lemma ERROR_eq: "ERROR = 2"
  by (simp add: ERROR_def levelNums_def)

lemma INFO_eq: "INFO = 4"
  by (simp add: INFO_def levelNums_def)

lemma decimal_0: "decimal 0 = ''0''"
  by (simp add: decimal_def radix.simps digit_def)

lemma replicate_3: "replicate 3 x = [x, x, x]"
  by (simp add: numeral_3_eq_3)

section \<open>Properties of target normalisation\<close>

lemma levelNums_get_falsy: "\<not> truthy v \<Longrightarrow> levelNums_get v = None"
  by (cases v) (auto simp: levelNums_get_def levelNums_def objectPrototype_def decimal_0)

lemma logLevelNum_falsy: "\<not> truthy v \<Longrightarrow> logLevelNum v = Inr (Rank TRACE)"
  by (simp add: logLevelNum_def levelNums_get_falsy)

lemma logLevelNum_throws:
  "logLevelNum v = Inl e \<Longrightarrow>
   truthy v \<and> map_of levelNums (propertyKey v) = None \<and> (\<exists>m. e = Err TypeError m)"
  by (auto simp: logLevelNum_def levelNums_get_def split: if_splits option.splits)

lemma logLevelNum_throws_key: "logLevelNum v = Inl e \<Longrightarrow> propertyKey v \<notin> fst ` set levelNums"
  using logLevelNum_throws [of v e] by (simp add: map_of_eq_None_iff)

lemma baseTargetOptions_falsy:
  "\<not> truthy (d_logLevel target) \<Longrightarrow> logStyle (d_style target) = Inr fm \<Longrightarrow>
   errorPolicy (d_errorPolicy target) = Inr pol \<Longrightarrow>
   \<exists>t. baseTargetOptions target s = Inr t \<and> t_level t = Rank TRACE"
  by (simp add: baseTargetOptions_def logLevelNum_falsy)

text \<open>
  C9. A falsy \<^verbatim>\<open>logLevel\<close> (the empty string, 0, false, as every falsy primitive) is
  accepted and the minimum rank defaults to TRACE, in \<^verbatim>\<open>logLevelNum\<close> and so in
  \<^verbatim>\<open>baseTargetOptions\<close>; and whenever \<^verbatim>\<open>logLevelNum\<close> throws, the value was truthy and
  not one of the six level names, and the error is a TypeError.
\<close>

theorem falsy_logLevel_defaults_to_TRACE:
  "logLevelNum (PStr '''') = Inr (Rank TRACE) \<and> logLevelNum (PNum 0) = Inr (Rank TRACE) \<and>
   logLevelNum (PBool False) = Inr (Rank TRACE) \<and>
   (\<not> truthy (d_logLevel target) \<and> logStyle (d_style target) = Inr fm \<and>
        errorPolicy (d_errorPolicy target) = Inr pol \<longrightarrow>
      (\<exists>t. baseTargetOptions target s = Inr t \<and> t_level t = Rank TRACE)) \<and>
   (logLevelNum v = Inl e \<longrightarrow>
      truthy v \<and> propertyKey v \<notin> fst ` set levelNums \<and> (\<exists>m. e = Err TypeError m))"
proof (intro conjI impI)
  assume "\<not> truthy (d_logLevel target) \<and> logStyle (d_style target) = Inr fm \<and>
        errorPolicy (d_errorPolicy target) = Inr pol"
  then show "\<exists>t. baseTargetOptions target s = Inr t \<and> t_level t = Rank TRACE"
    using baseTargetOptions_falsy by blast
qed (simp_all add: logLevelNum_falsy logLevelNum_throws logLevelNum_throws_key)

theorem falsy_logLevel_defaults_to_TRACE_witness:
  "(\<exists>t. baseTargetOptions plainTarget (FUNCTION console_log) = Inr t \<and> t_level t = Rank 6) \<and>
   logLevelNum (PStr ''VERBOSE'') =
     Inl (Err TypeError ''log level must be one of 'TRACE', 'DEBUG', 'INFO', 'WARN', 'ERROR', 'FATAL'. Received VERBOSE instead'') \<and>
   truthy (PStr ''VERBOSE'') \<and> ''VERBOSE'' \<notin> fst ` set levelNums"
proof -
  have h: "logLevelNum (PStr ''VERBOSE'') =
     Inl (Err TypeError ''log level must be one of 'TRACE', 'DEBUG', 'INFO', 'WARN', 'ERROR', 'FATAL'. Received VERBOSE instead'')"
    by (simp add: logLevelNum_def levelNums_get_def levelNums_def objectPrototype_def)
  have g: "\<not> truthy (d_logLevel plainTarget) \<and> logStyle (d_style plainTarget) = Inr TEXT \<and>
        errorPolicy (d_errorPolicy plainTarget) = Inr LOG"
    by (simp add: plainTarget_def)
  note t = falsy_logLevel_defaults_to_TRACE
             [of plainTarget TEXT LOG "FUNCTION console_log" "PStr ''VERBOSE''"
                 "Err TypeError ''log level must be one of 'TRACE', 'DEBUG', 'INFO', 'WARN', 'ERROR', 'FATAL'. Received VERBOSE instead''"]
  from t g have a: "\<exists>t. baseTargetOptions plainTarget (FUNCTION console_log) = Inr t \<and> t_level t = Rank TRACE"
    by blast
  from t h have b: "truthy (PStr ''VERBOSE'') \<and> propertyKey (PStr ''VERBOSE'') \<notin> fst ` set levelNums"
    by blast
  from a b h show ?thesis by (simp add: TRACE_eq)
qed

text \<open>
  The converse does not hold for the names every object inherits: \<^verbatim>\<open>levelNums["toString"]\<close>
  is a function, not \<^verbatim>\<open>undefined\<close>, so this truthy value outside the six names does not
  throw, and the target is never skipped.
\<close>

lemma logLevelNum_inherited_name:
  "logLevelNum (PStr ''toString'') = Inr (ProtoMember ''toString'') \<and>
   \<not> levelBelow (ProtoMember ''toString'') level"
  by (simp add: logLevelNum_def levelNums_get_def levelNums_def objectPrototype_def)

section \<open>Properties of the factory\<close>

lemma createLogger_cases:
  "(case createLogger this c s col of (Inl e, f) \<Rightarrow> f = this | (Inr l, f) \<Rightarrow> True)"
  by (simp add: createLogger_def Let_def split: sum.split)

text \<open>
  C10. \<^verbatim>\<open>createLogger\<close> is atomic on failure: whenever it throws (destroyed factory or
  invalid colour), the factory, and with it \<^verbatim>\<open>maxSourceLength\<close>, is left as it was.
\<close>

theorem createLogger_throw_leaves_factory:
  "fst (createLogger this c s col) = Inl e \<Longrightarrow> snd (createLogger this c s col) = this"
  using createLogger_cases [of this c s col]
  by (cases "createLogger this c s col") (auto split: sum.splits)

theorem createLogger_throw_leaves_factory_witness:
  "fst (createLogger smallFactory ''component1'' None (ColorString ''#FFFF0'')) =
     Inl (Err RangeError ''Expected sourceColor to be a hex string of length 6'') \<and>
   snd (createLogger smallFactory ''component1'' None (ColorString ''#FFFF0'')) = smallFactory \<and>
   maxSourceLength (snd (createLogger smallFactory ''component1'' None (ColorString ''#FFFF00''))) = 10"
proof -
  have h: "fst (createLogger smallFactory ''component1'' None (ColorString ''#FFFF0'')) =
     Inl (Err RangeError ''Expected sourceColor to be a hex string of length 6'')"
    by (simp add: createLogger_def smallFactory_def packArray_def hexOfNumber_def startsWith_def
        isHexColor_def)
  have g: "maxSourceLength (snd (createLogger smallFactory ''component1'' None (ColorString ''#FFFF00''))) = 10"
    by (simp add: createLogger_def smallFactory_def packArray_def hexOfNumber_def startsWith_def
        isHexColor_def isHexDigit_def)
  from h g createLogger_throw_leaves_factory [OF h] show ?thesis by simp
qed

lemma createLogger_maxSourceLength:
  "fst (createLogger this c s col) = Inr lg \<Longrightarrow>
   maxSourceLength (snd (createLogger this c s col)) =
     max (maxSourceLength this) (length c + (case s of None \<Rightarrow> 0 | Some x \<Rightarrow> Suc (length x)))"
  by (auto simp: createLogger_def Let_def split: if_splits sum.splits option.splits)

lemma createLogger_targets: "targets (snd (createLogger this c s col)) = targets this"
  by (simp add: createLogger_def Let_def split: sum.split)

section \<open>Properties of the dispatcher\<close>

lemma log'_destroyed:
  "destroyed (manager now) \<Longrightarrow>
   log' w manager ts messages level logger msl now = Inl (Err Error ''Logger has been destroyed'')"
  by (simp add: log'.simps)

lemma log'_live:
  "\<not> destroyed (manager now) \<Longrightarrow>
   log' w manager (Some ts) messages level logger msl now =
     Inr (Dispatch now
            (map (\<lambda>(i, v). attempt w manager ts messages level logger msl now v i) (enumerate 0 ts))
            (Promise_all now (List.map_filter slotPromise
               (map (\<lambda>(i, v). attempt w manager ts messages level logger msl now v i) (enumerate 0 ts)))))"
  by (simp add: log'.simps Let_def)

lemma log'_Inr_cases:
  assumes "log' w manager targets' messages level logger msl now = Inr d"
  obtains ts where "targets' = Some ts" "\<not> destroyed (manager now)"
    "d = Dispatch now
            (map (\<lambda>(i, v). attempt w manager ts messages level logger msl now v i) (enumerate 0 ts))
            (Promise_all now (List.map_filter slotPromise
               (map (\<lambda>(i, v). attempt w manager ts messages level logger msl now v i) (enumerate 0 ts))))"
  using assms by (cases targets'; cases "destroyed (manager now)") (auto simp: log'.simps Let_def)

lemma slots_nth:
  "i < length ts \<Longrightarrow> map (\<lambda>(i, v). F v i) (enumerate 0 ts) ! i = F (ts ! i) i"
  by (simp add: nth_enumerate_eq)

lemma slots_set:
  "s \<in> set (map (\<lambda>(i, v). F v i) (enumerate 0 ts)) \<Longrightarrow> \<exists>i<length ts. s = F (ts ! i) i"
  by (auto simp: in_set_enumerate_eq)

lemma attempt_Skipped_iff:
  "(attempt w manager ts messages level logger msl now v i = Skipped) = levelBelow (t_level v) level"
  by (simp add: attempt.simps Let_def split: ack.split policy.split sum.split)

lemma attempt_payload:
  "\<not> levelBelow (t_level v) level \<Longrightarrow>
   payload (attempt w manager ts messages level logger msl now v i) =
     Some (format messages level (component logger) (source logger) (color logger) (t_uniform v)
             msl (t_format v) (t_color v) now (t_fullTimestamps v))"
  by (simp add: attempt.simps Let_def split: ack.split policy.split sum.split)

lemma attempt_recovery_cases:
  "recovery (attempt w manager ts messages level logger msl now v i) = Some r \<Longrightarrow>
   t_errorPolicy v = LOG \<and>
   (\<exists>d e. invoke w now (t_sink v)
             (format messages level (component logger) (source logger) (color logger) (t_uniform v)
                msl (t_format v) (t_color v) now (t_fullTimestamps v)) = Fail d e \<and>
          \<not> destroyed (manager (now + d)) \<and>
          log' w manager (Some (map (\<lambda>v. v\<lparr>t_errorPolicy := IGNORE\<rparr>) ts))
            [JStr (''Failed to log to target '' @ decimal i @ '':''),
             JObj [(''timestamp'', JNum (int now)), (''level'', levels_get level),
                   (''messages'', JArr messages), (''error'', e)]]
            (min level ERROR) logger msl (now + d) = Inr r)"
  by (simp add: attempt.simps Let_def split: if_splits ack.splits policy.splits sum.splits)

lemma attempt_no_LOG:
  "t_errorPolicy v \<noteq> LOG \<Longrightarrow> recovery (attempt w manager ts messages level logger msl now v i) = None"
  using attempt_recovery_cases by (cases "recovery (attempt w manager ts messages level logger msl now v i)") auto

text \<open>
  C1. While the factory is alive, a log call at rank \<open>r\<close> gives every target one slot;
  the slot of a target with minimum rank \<open>m\<close> is skipped exactly when \<open>m < r\<close>, and
  exactly when \<open>r \<le> m\<close> the target's own sink is invoked at the time of the call: the
  stream is written, the callable called or the request posted, each with the payload that
  carries the messages, the rank, the logger's names and colour, this target's display
  options, the padding length and the timestamp of the call.
\<close>

theorem dispatch_delivers_iff_rank_admitted:
  assumes "\<not> destroyed (manager now)" and "i < length ts" and "t_level (ts ! i) = Rank m"
  shows "\<exists>ss p. log' w manager (Some ts) messages r logger msl now = Inr (Dispatch now ss p) \<and>
           length ss = length ts \<and>
           ((ss ! i = Skipped) = (m < r)) \<and>
           ((\<exists>c a rc q. ss ! i = Invoked c a rc q \<and>
               c = \<lparr>c_messages = messages, c_level = r, c_component = component logger,
                    c_source = source logger, c_sourceColor = color logger,
                    c_uniform = t_uniform (ts ! i), c_maxSourceLength = msl,
                    c_format = t_format (ts ! i), c_color = t_color (ts ! i), c_timestamp = now,
                    c_fullTimestamps = t_fullTimestamps (ts ! i)\<rparr> \<and>
               a = (case t_sink (ts ! i) of
                      STREAM h private \<Rightarrow> writeToStream w now h c
                    | FUNCTION f \<Rightarrow> callFunction w now f c
                    | HTTP url opts \<Rightarrow> postRequest w now False url c opts
                    | HTTPS url opts \<Rightarrow> postRequest w now True url c opts)) = (r \<le> m))"
proof -
  let ?ss = "map (\<lambda>(i, v). attempt w manager ts messages r logger msl now v i) (enumerate 0 ts)"
  let ?c = "\<lparr>c_messages = messages, c_level = r, c_component = component logger,
                    c_source = source logger, c_sourceColor = color logger,
                    c_uniform = t_uniform (ts ! i), c_maxSourceLength = msl,
                    c_format = t_format (ts ! i), c_color = t_color (ts ! i), c_timestamp = now,
                    c_fullTimestamps = t_fullTimestamps (ts ! i)\<rparr>"
  let ?a = "case t_sink (ts ! i) of
                      STREAM h private \<Rightarrow> writeToStream w now h ?c
                    | FUNCTION f \<Rightarrow> callFunction w now f ?c
                    | HTTP url opts \<Rightarrow> postRequest w now False url ?c opts
                    | HTTPS url opts \<Rightarrow> postRequest w now True url ?c opts"
  have nth: "?ss ! i = attempt w manager ts messages r logger msl now (ts ! i) i"
    using assms(2) by (simp add: nth_enumerate_eq)
  have skip: "(?ss ! i = Skipped) = (m < r)"
    by (simp add: nth attempt_Skipped_iff assms(3))
  have inv: "(\<exists>c a rc q. ?ss ! i = Invoked c a rc q \<and> c = ?c \<and> a = ?a) = (r \<le> m)"
  proof (cases "m < r")
    case True
    with skip show ?thesis by simp
  next
    case False
    then have "\<not> levelBelow (t_level (ts ! i)) r" by (simp add: assms(3))
    then have "\<exists>rc q. attempt w manager ts messages r logger msl now (ts ! i) i = Invoked ?c ?a rc q"
      by (simp add: attempt.simps Let_def format_def invoke_def split: ack.split policy.split sum.split)
    with False nth show ?thesis by simp
  qed
  show ?thesis
    using log'_live [where manager = manager and now = now, OF assms(1), of w ts messages r logger msl] skip inv by simp
qed

theorem dispatch_delivers_iff_rank_admitted_witness:
  "\<exists>ss p. log' demoWorld (always (LoggerFactory_new (Some demoTargets))) (Some demoTargets) [JStr ''x''] INFO svc 0 10
      = Inr (Dispatch 10 ss p) \<and> length ss = 3 \<and> ss ! 1 = Skipped \<and>
      (\<exists>rc q. ss ! 0 = Invoked
         \<lparr>c_messages = [JStr ''x''], c_level = 4, c_component = ''svc'', c_source = None,
          c_sourceColor = None, c_uniform = True, c_maxSourceLength = 0, c_format = TEXT,
          c_color = False, c_timestamp = 10, c_fullTimestamps = False\<rparr>
         (Fail 2 boom) rc q)"
proof -
  have a: "\<not> destroyed (always (LoggerFactory_new (Some demoTargets)) 10)"
    by (simp add: always_def LoggerFactory_new_def)
  have b: "1 < length demoTargets" "0 < length demoTargets" by (simp_all add: demoTargets_def)
  have c: "t_level (demoTargets ! 1) = Rank 2" "t_level (demoTargets ! 0) = Rank 6"
    by (simp_all add: demoTargets_def errorsOnlyTarget_def failingTarget_def)
  note t = dispatch_delivers_iff_rank_admitted [where manager = "always (LoggerFactory_new (Some demoTargets))" and now = 10
      and ts = demoTargets and w = demoWorld and messages = "[JStr ''x'']" and r = INFO
      and logger = svc and msl = 0, OF a]
  from t [OF b(1) c(1)] t [OF b(2) c(2)]
  show ?thesis
    by (auto simp: INFO_eq demoTargets_def failingTarget_def svc_def demoWorld_def)
qed

subsection \<open>Recovery is one level deep\<close>

lemma fold_max_le: "(fold max xs (a::nat) \<le> k) = (a \<le> k \<and> (\<forall>x\<in>set xs. x \<le> k))"
  by (induction xs arbitrary: a) auto

lemma slotDepth_no_recovery: "recovery s = None \<Longrightarrow> slotDepth s = 0"
  by (cases s) auto

lemma depth_all_IGNORE:
  assumes "log' w manager (Some (map (\<lambda>v. v\<lparr>t_errorPolicy := IGNORE\<rparr>) ts)) messages level logger msl now = Inr d"
  shows "\<forall>s\<in>set (slots d). recovery s = None"
proof -
  let ?ts = "map (\<lambda>v. v\<lparr>t_errorPolicy := IGNORE\<rparr>) ts"
  from assms obtain ts' where ts': "Some ?ts = Some ts'" and
    d: "d = Dispatch now
            (map (\<lambda>(i, v). attempt w manager ts' messages level logger msl now v i) (enumerate 0 ts'))
            (Promise_all now (List.map_filter slotPromise
               (map (\<lambda>(i, v). attempt w manager ts' messages level logger msl now v i) (enumerate 0 ts'))))"
    by (rule log'_Inr_cases)
  show ?thesis
  proof
    fix s assume "s \<in> set (slots d)"
    with d ts' obtain i where i: "i < length ?ts" and s: "s = attempt w manager ?ts messages level logger msl now (?ts ! i) i"
      using slots_set [of s "\<lambda>v i. attempt w manager ?ts messages level logger msl now v i" ?ts] by auto
    from i have "t_errorPolicy (?ts ! i) = IGNORE" by simp
    then show "recovery s = None" unfolding s by (intro attempt_no_LOG) simp
  qed
qed

text \<open>
  C2. Whatever the targets and however many of them fail, a dispatch contains at most one
  level of recovery dispatches: inside a recovery dispatch no slot starts a further one,
  because the derived target list has policy \<^verbatim>\<open>IGNORE\<close> throughout.
\<close>

theorem recovery_dispatch_never_recovers:
  assumes "log' w manager targets' messages level logger msl now = Inr d"
  shows "depth d \<le> 1 \<and> (\<forall>s\<in>set (slots d). \<forall>r. recovery s = Some r \<longrightarrow> (\<forall>s'\<in>set (slots r). recovery s' = None))"
proof -
  from assms obtain ts where ts: "targets' = Some ts" and
    d: "d = Dispatch now
            (map (\<lambda>(i, v). attempt w manager ts messages level logger msl now v i) (enumerate 0 ts))
            (Promise_all now (List.map_filter slotPromise
               (map (\<lambda>(i, v). attempt w manager ts messages level logger msl now v i) (enumerate 0 ts))))"
    by (rule log'_Inr_cases)
  have rec: "\<forall>s'\<in>set (slots r). recovery s' = None" if "s \<in> set (slots d)" "recovery s = Some r" for s r
  proof -
    from that(1) d obtain i where "i < length ts" and s: "s = attempt w manager ts messages level logger msl now (ts ! i) i"
      using slots_set [of s "\<lambda>v i. attempt w manager ts messages level logger msl now v i" ts] by auto
    from that(2) s attempt_recovery_cases [of w manager ts messages level logger msl now "ts ! i" i r]
    obtain m l t where "log' w manager (Some (map (\<lambda>v. v\<lparr>t_errorPolicy := IGNORE\<rparr>) ts)) m l logger msl t = Inr r"
      by blast
    then show ?thesis by (rule depth_all_IGNORE)
  qed
  have "slotDepth s \<le> 1" if "s \<in> set (slots d)" for s
  proof (cases "recovery s")
    case None
    then show ?thesis by (simp add: slotDepth_no_recovery)
  next
    case (Some r)
    with rec that have "\<forall>s'\<in>set (slots r). slotDepth s' = 0" by (simp add: slotDepth_no_recovery)
    then have "depth r = 0" by (cases r) (simp add: fold_max_le flip: le_zero_eq)
    with Some show ?thesis by (cases s) auto
  qed
  then have "depth d \<le> 1" by (cases d) (simp add: fold_max_le)
  with rec show ?thesis by blast
qed

theorem recovery_dispatch_never_recovers_witness:
  "\<exists>d. log' demoWorld (always (LoggerFactory_new (Some demoTargets))) (Some demoTargets)
          [JStr ''x''] INFO svc 0 10 = Inr d \<and> depth d = 1"
proof -
  have "\<exists>d. log' demoWorld (always (LoggerFactory_new (Some demoTargets))) (Some demoTargets)
          [JStr ''x''] INFO svc 0 10 = Inr d \<and> 1 \<le> depth d"
    by (simp add: log'.simps attempt.simps Let_def ex_defs demoTargets_def INFO_eq ERROR_eq)
  then obtain d where d: "log' demoWorld (always (LoggerFactory_new (Some demoTargets))) (Some demoTargets)
          [JStr ''x''] INFO svc 0 10 = Inr d" "1 \<le> depth d"
    by blast
  from recovery_dispatch_never_recovers [OF d(1)] have "depth d \<le> 1" by blast
  with d show ?thesis by auto
qed

subsection \<open>The recovery event\<close>

text \<open>
  C3, as stated, fails when the factory is destroyed between the start of the delivery and
  its failure: the \<^verbatim>\<open>catch\<close> block tests \<^verbatim>\<open>!logger.destroyed\<close>, and then no recovery
  event is dispatched although the policy is \<^verbatim>\<open>LOG\<close>.
\<close>

theorem log_failure_without_recovery_when_destroyed:
  "t_errorPolicy failingTarget = LOG \<and>
   log' demoWorld (destroyedFrom 12 (LoggerFactory_new (Some [failingTarget]))) (Some [failingTarget])
      [JStr ''x''] INFO svc 0 10 =
    Inr (Dispatch 10
          [Invoked (format [JStr ''x''] INFO ''svc'' None None True 0 TEXT False 10 False)
             (Fail 2 boom) None (Fulfilled 12)]
          (Fulfilled 12))"
  by (simp add: log'.simps attempt.simps Let_def ex_defs destroyedFrom_def INFO_eq)

text \<open>
  C3, amended. Let the delivery to target \<open>i\<close> fail with policy \<^verbatim>\<open>LOG\<close>. If the
  factory is still alive at that moment, the slot holds exactly one recovery dispatch, and
  its promise is that of the recovery: the call of \<^verbatim>\<open>_log\<close> on the same targets with
  every policy set to \<^verbatim>\<open>IGNORE\<close>, with the message \<^verbatim>\<open>Failed to log to target i:\<close>
  followed by the payload of timestamp, level name, original messages and error, at rank
  \<open>min level ERROR\<close>. If the factory has been destroyed in the meantime, the slot holds
  no recovery dispatch and is fulfilled at the time of the failure: the failure is dropped.
\<close>

theorem log_failure_dispatches_recovery_event:
  assumes "\<not> destroyed (manager now)" and "i < length ts"
    and "\<not> levelBelow (t_level (ts ! i)) level"
    and "c = \<lparr>c_messages = messages, c_level = level, c_component = component logger,
              c_source = source logger, c_sourceColor = color logger,
              c_uniform = t_uniform (ts ! i), c_maxSourceLength = msl,
              c_format = t_format (ts ! i), c_color = t_color (ts ! i), c_timestamp = now,
              c_fullTimestamps = t_fullTimestamps (ts ! i)\<rparr>"
    and "(case t_sink (ts ! i) of
            STREAM h private \<Rightarrow> writeToStream w now h c
          | FUNCTION f \<Rightarrow> callFunction w now f c
          | HTTP url opts \<Rightarrow> postRequest w now False url c opts
          | HTTPS url opts \<Rightarrow> postRequest w now True url c opts) = Fail d e"
    and "t_errorPolicy (ts ! i) = LOG"
  shows "\<exists>ss p. log' w manager (Some ts) messages level logger msl now = Inr (Dispatch now ss p) \<and>
           (\<not> destroyed (manager (now + d)) \<longrightarrow>
              (\<exists>r. ss ! i = Invoked c (Fail d e) (Some r) (settled r) \<and>
                 log' w manager (Some (map (\<lambda>v. v\<lparr>t_errorPolicy := IGNORE\<rparr>) ts))
                   [JStr (''Failed to log to target '' @ decimal i @ '':''),
                    JObj [(''timestamp'', JNum (int now)), (''level'', levels_get level),
                          (''messages'', JArr messages), (''error'', e)]]
                   (min level ERROR) logger msl (now + d) = Inr r)) \<and>
           (destroyed (manager (now + d)) \<longrightarrow>
              ss ! i = Invoked c (Fail d e) None (Fulfilled (now + d)))"
proof -
  let ?ts' = "map (\<lambda>v. v\<lparr>t_errorPolicy := IGNORE\<rparr>) ts"
  let ?ms = "[JStr (''Failed to log to target '' @ decimal i @ '':''),
              JObj [(''timestamp'', JNum (int now)), (''level'', levels_get level),
                    (''messages'', JArr messages), (''error'', e)]]"
  let ?ss = "map (\<lambda>(i, v). attempt w manager ts messages level logger msl now v i) (enumerate 0 ts)"
  have c: "format messages level (component logger) (source logger) (color logger) (t_uniform (ts ! i))
              msl (t_format (ts ! i)) (t_color (ts ! i)) now (t_fullTimestamps (ts ! i)) = c"
    by (simp add: format_def assms(4))
  have a: "invoke w now (t_sink (ts ! i)) c = Fail d e"
    using assms(5) by (simp add: invoke_def)
  have nth: "?ss ! i = attempt w manager ts messages level logger msl now (ts ! i) i"
    using assms(2) by (simp add: nth_enumerate_eq)
  have alive: "\<exists>r. ?ss ! i = Invoked c (Fail d e) (Some r) (settled r) \<and>
      log' w manager (Some ?ts') ?ms (min level ERROR) logger msl (now + d) = Inr r"
    if nd: "\<not> destroyed (manager (now + d))"
  proof -
    obtain r where r: "log' w manager (Some ?ts') ?ms (min level ERROR) logger msl (now + d) = Inr r"
      using log'_live [where manager = manager and now = "now + d", OF nd] by blast
    have "attempt w manager ts messages level logger msl now (ts ! i) i = Invoked c (Fail d e) (Some r) (settled r)"
      using assms(3,6) nd r by (simp add: attempt.simps Let_def c a)
    with nth r show ?thesis by simp
  qed
  have dead: "?ss ! i = Invoked c (Fail d e) None (Fulfilled (now + d))"
    if "destroyed (manager (now + d))"
    using that assms(3,6) nth by (simp add: attempt.simps Let_def c a)
  show ?thesis
    unfolding log'_live [where manager = manager and now = now, OF assms(1), of w ts messages level logger msl]
    using alive dead by blast
qed

theorem log_failure_dispatches_recovery_event_witness:
  "(\<exists>ss p r. log' demoWorld (always (LoggerFactory_new (Some demoTargets))) (Some demoTargets)
          [JStr ''x''] INFO svc 0 10 = Inr (Dispatch 10 ss p) \<and>
     ss ! 0 = Invoked
         \<lparr>c_messages = [JStr ''x''], c_level = 4, c_component = ''svc'', c_source = None,
          c_sourceColor = None, c_uniform = True, c_maxSourceLength = 0, c_format = TEXT,
          c_color = False, c_timestamp = 10, c_fullTimestamps = False\<rparr>
         (Fail 2 boom) (Some r) (settled r) \<and>
     log' demoWorld (always (LoggerFactory_new (Some demoTargets)))
       (Some [failingTarget\<lparr>t_errorPolicy := IGNORE\<rparr>, errorsOnlyTarget, failingTarget\<lparr>t_errorPolicy := IGNORE\<rparr>])
       [JStr ''Failed to log to target 0:'',
        JObj [(''timestamp'', JNum 10), (''level'', JStr ''INFO''),
              (''messages'', JArr [JStr ''x'']), (''error'', boom)]]
       2 svc 0 12 = Inr r) \<and>
   (\<exists>ss p. log' demoWorld (destroyedFrom 12 (LoggerFactory_new (Some demoTargets))) (Some demoTargets)
          [JStr ''x''] INFO svc 0 10 = Inr (Dispatch 10 ss p) \<and>
     ss ! 0 = Invoked
         \<lparr>c_messages = [JStr ''x''], c_level = 4, c_component = ''svc'', c_source = None,
          c_sourceColor = None, c_uniform = True, c_maxSourceLength = 0, c_format = TEXT,
          c_color = False, c_timestamp = 10, c_fullTimestamps = False\<rparr>
         (Fail 2 boom) None (Fulfilled 12))"
proof -
  let ?c = "\<lparr>c_messages = [JStr ''x''], c_level = INFO, c_component = component svc,
              c_source = source svc, c_sourceColor = color svc,
              c_uniform = t_uniform (demoTargets ! 0), c_maxSourceLength = 0,
              c_format = t_format (demoTargets ! 0), c_color = t_color (demoTargets ! 0), c_timestamp = 10,
              c_fullTimestamps = t_fullTimestamps (demoTargets ! 0)\<rparr>"
  have a: "\<not> destroyed (always (LoggerFactory_new (Some demoTargets)) 10)"
    and a': "\<not> destroyed (destroyedFrom 12 (LoggerFactory_new (Some demoTargets)) 10)"
    and f: "\<not> destroyed (always (LoggerFactory_new (Some demoTargets)) (10 + 2))"
    and f': "destroyed (destroyedFrom 12 (LoggerFactory_new (Some demoTargets)) (10 + 2))"
    by (simp_all add: always_def destroyedFrom_def LoggerFactory_new_def)
  have b: "0 < length demoTargets" by (simp add: demoTargets_def)
  have l: "\<not> levelBelow (t_level (demoTargets ! 0)) INFO"
    by (simp add: demoTargets_def failingTarget_def INFO_eq)
  have d: "(case t_sink (demoTargets ! 0) of
            STREAM h private \<Rightarrow> writeToStream demoWorld 10 h ?c
          | FUNCTION f \<Rightarrow> callFunction demoWorld 10 f ?c
          | HTTP url opts \<Rightarrow> postRequest demoWorld 10 False url ?c opts
          | HTTPS url opts \<Rightarrow> postRequest demoWorld 10 True url ?c opts) = Fail 2 boom"
    by (simp add: demoTargets_def failingTarget_def demoWorld_def)
  have e: "t_errorPolicy (demoTargets ! 0) = LOG" by (simp add: demoTargets_def failingTarget_def)
  note t1 = log_failure_dispatches_recovery_event
      [where manager = "always (LoggerFactory_new (Some demoTargets))" and now = 10 and c = ?c,
       OF a b l refl d e]
  note t2 = log_failure_dispatches_recovery_event
      [where manager = "destroyedFrom 12 (LoggerFactory_new (Some demoTargets))" and now = 10 and c = ?c,
       OF a' b l refl d e]
  from t1 f have 1: "\<exists>ss p r. log' demoWorld (always (LoggerFactory_new (Some demoTargets))) (Some demoTargets)
          [JStr ''x''] INFO svc 0 10 = Inr (Dispatch 10 ss p) \<and>
     ss ! 0 = Invoked ?c (Fail 2 boom) (Some r) (settled r) \<and>
     log' demoWorld (always (LoggerFactory_new (Some demoTargets)))
       (Some (map (\<lambda>v. v\<lparr>t_errorPolicy := IGNORE\<rparr>) demoTargets))
       [JStr (''Failed to log to target '' @ decimal 0 @ '':''),
        JObj [(''timestamp'', JNum (int 10)), (''level'', levels_get INFO),
              (''messages'', JArr [JStr ''x'']), (''error'', boom)]]
       (min INFO ERROR) svc 0 (10 + 2) = Inr r"
    by blast
  from t2 f' have 2: "\<exists>ss p. log' demoWorld (destroyedFrom 12 (LoggerFactory_new (Some demoTargets))) (Some demoTargets)
          [JStr ''x''] INFO svc 0 10 = Inr (Dispatch 10 ss p) \<and>
     ss ! 0 = Invoked ?c (Fail 2 boom) None (Fulfilled (10 + 2))"
    by blast
  from 1 2 show ?thesis
    by (simp add: demoTargets_def decimal_0 levels_get_def levels_def INFO_eq ERROR_eq errorsOnlyTarget_def
        failingTarget_def svc_def)
qed

subsection \<open>When a failure reaches the caller\<close>

lemma firstRejection_None: "(firstRejection ps = None) = (\<forall>p\<in>set ps. \<exists>t. p = Fulfilled t)"
  by (induction ps rule: firstRejection.induct) (auto split: option.splits)

lemma firstRejection_Some:
  "firstRejection ps = Some (t, e) \<Longrightarrow>
   Rejected t e \<in> set ps \<and> (\<forall>t' e'. Rejected t' e' \<in> set ps \<longrightarrow> t \<le> t')"
proof (induction ps arbitrary: t e rule: firstRejection.induct)
  case 1
  then show ?case by simp
next
  case (2 u ps)
  then show ?case by simp
next
  case (3 u x ps)
  show ?case
  proof (cases "firstRejection ps")
    case None
    with 3(2) have "t = u" "e = x" by simp_all
    moreover from None have "\<forall>p\<in>set ps. \<exists>t. p = Fulfilled t" by (simp add: firstRejection_None)
    ultimately show ?thesis by auto
  next
    case (Some a)
    obtain t' e' where a: "a = (t', e')" by (cases a)
    from 3(1) [OF Some [unfolded a]]
    have ih: "Rejected t' e' \<in> set ps" "\<forall>t'' e''. Rejected t'' e'' \<in> set ps \<longrightarrow> t' \<le> t''" by simp_all
    show ?thesis
    proof (cases "t' < u")
      case True
      with 3(2) Some a have "t = t'" "e = e'" by simp_all
      with ih True show ?thesis by auto
    next
      case False
      with 3(2) Some a have "t = u" "e = x" by simp_all
      with ih False show ?thesis by fastforce
    qed
  qed
qed

lemma Promise_all_Rejected:
  "(Promise_all now ps = Rejected t e) = (firstRejection ps = Some (t, e))"
  by (auto simp: Promise_all_def split: option.splits)

lemma Promise_all_fulfilled:
  "\<forall>p\<in>set ps. \<exists>t. p = Fulfilled t \<Longrightarrow> \<exists>t. Promise_all now ps = Fulfilled t"
  by (simp add: Promise_all_def firstRejection_None [symmetric])

lemma set_map_filter: "set (List.map_filter f xs) = {y. \<exists>x\<in>set xs. f x = Some y}"
  by (induction xs) (auto split: option.splits)

lemma attempt_IGNORE_promise:
  "t_errorPolicy v = IGNORE \<Longrightarrow>
   slotPromise (attempt w manager ts messages level logger msl now v i) = Some p \<Longrightarrow> \<exists>t. p = Fulfilled t"
  by (auto simp: attempt.simps Let_def split: if_splits ack.splits)

lemma settled_all_IGNORE:
  assumes "log' w manager (Some (map (\<lambda>v. v\<lparr>t_errorPolicy := IGNORE\<rparr>) ts)) messages level logger msl now = Inr d"
  shows "\<exists>t. settled d = Fulfilled t"
proof -
  let ?ts = "map (\<lambda>v. v\<lparr>t_errorPolicy := IGNORE\<rparr>) ts"
  let ?ss = "map (\<lambda>(i, v). attempt w manager ?ts messages level logger msl now v i) (enumerate 0 ?ts)"
  from assms have d: "d = Dispatch now ?ss (Promise_all now (List.map_filter slotPromise ?ss))"
    by (elim log'_Inr_cases) simp
  have "\<exists>t. p = Fulfilled t" if "p \<in> set (List.map_filter slotPromise ?ss)" for p
  proof -
    from that obtain s where s: "s \<in> set ?ss" "slotPromise s = Some p"
      by (auto simp: set_map_filter)
    from s(1) obtain i where i: "i < length ?ts" and s': "s = attempt w manager ?ts messages level logger msl now (?ts ! i) i"
      using slots_set [of s "\<lambda>v i. attempt w manager ?ts messages level logger msl now v i" ?ts] by auto
    from i have "t_errorPolicy (?ts ! i) = IGNORE" by simp
    from attempt_IGNORE_promise [OF this] s(2) s' show ?thesis by blast
  qed
  then have "\<exists>t. Promise_all now (List.map_filter slotPromise ?ss) = Fulfilled t"
    by (intro Promise_all_fulfilled) blast
  with d show ?thesis by simp
qed

lemma attempt_Rejected_iff:
  "(slotPromise (attempt w manager ts messages level logger msl now v i) = Some (Rejected t e)) =
   (throwFailure w messages level logger msl now v = Some (t, e))"
proof (cases "levelBelow (t_level v) level")
  case True
  then show ?thesis by (simp add: attempt.simps throwFailure_def)
next
  case False
  let ?c = "format messages level (component logger) (source logger) (color logger) (t_uniform v)
                     msl (t_format v) (t_color v) now (t_fullTimestamps v)"
  show ?thesis
  proof (cases "invoke w now (t_sink v) ?c")
    case (Ack d)
    with False show ?thesis by (simp add: attempt.simps throwFailure_def Let_def)
  next
    case (Fail d x)
    show ?thesis
    proof (cases "t_errorPolicy v")
      case THROW
      with False Fail show ?thesis by (auto simp: attempt.simps throwFailure_def Let_def)
    next
      case IGNORE
      with False Fail show ?thesis by (simp add: attempt.simps throwFailure_def Let_def)
    next
      case LOG
      show ?thesis
      proof (cases "destroyed (manager (now + d))")
        case True
        with False Fail LOG show ?thesis by (simp add: attempt.simps throwFailure_def Let_def)
      next
        case nd: False
        let ?ms = "[JStr (''Failed to log to target '' @ decimal i @ '':''),
              JObj [(''timestamp'', JNum (int now)), (''level'', levels_get level),
                    (''messages'', JArr messages), (''error'', x)]]"
        obtain r where r: "log' w manager (Some (map (\<lambda>v. v\<lparr>t_errorPolicy := IGNORE\<rparr>) ts)) ?ms
            (min level ERROR) logger msl (now + d) = Inr r"
          using log'_live [where manager = manager and now = "now + d", OF nd] by blast
        from settled_all_IGNORE [OF r] obtain u where "settled r = Fulfilled u" by blast
        with False Fail LOG nd r show ?thesis by (simp add: attempt.simps throwFailure_def Let_def)
      qed
    qed
  qed
qed

text \<open>
  C4, as stated, fails: \<^verbatim>\<open>Promise.all\<close> rejects with the first rejection. Here the
  \<^verbatim>\<open>THROW\<close> target fails at time 11 and the call is rejected at 11, while the second
  target is acknowledged only at 15.
\<close>

theorem throw_surfaces_before_others_settle:
  "log' demoWorld (always (LoggerFactory_new (Some [throwingTarget, slowTarget]))) (Some [throwingTarget, slowTarget])
      [JStr ''x''] INFO svc 0 10 =
    Inr (Dispatch 10
          [Invoked (format [JStr ''x''] INFO ''svc'' None None False 0 TEXT False 10 False)
             (Fail 1 boom) None (Rejected 11 boom),
           Invoked (format [JStr ''x''] INFO ''svc'' None None True 0 TEXT False 10 False)
             (Ack 5) None (Fulfilled 15)]
          (Rejected 11 boom))"
  by (simp add: log'.simps attempt.simps Let_def ex_defs INFO_eq)

text \<open>
  C4, amended. Every target that admits the rank is invoked, whatever happens to the
  others. The promise of the log call is rejected exactly when an admitted target with
  policy \<^verbatim>\<open>THROW\<close> fails, and then at the time and with the reason of the earliest such
  failure: it does not wait for the remaining targets.
\<close>

theorem throw_rejects_at_earliest_failure:
  assumes "\<not> destroyed (manager now)"
  shows "\<exists>ss p. log' w manager (Some ts) messages level logger msl now = Inr (Dispatch now ss p) \<and>
           length ss = length ts \<and>
           (\<forall>i<length ts. (ss ! i = Skipped) = levelBelow (t_level (ts ! i)) level) \<and>
           (\<forall>t e. p = Rejected t e \<longrightarrow>
              (\<exists>i<length ts. throwFailure w messages level logger msl now (ts ! i) = Some (t, e)) \<and>
              (\<forall>j<length ts. \<forall>t' e'. throwFailure w messages level logger msl now (ts ! j) = Some (t', e')
                  \<longrightarrow> t \<le> t')) \<and>
           ((\<exists>i<length ts. throwFailure w messages level logger msl now (ts ! i) \<noteq> None) \<longrightarrow>
              (\<exists>t e. p = Rejected t e))"
proof -
  let ?ss = "map (\<lambda>(i, v). attempt w manager ts messages level logger msl now v i) (enumerate 0 ts)"
  let ?ps = "List.map_filter slotPromise ?ss"
  let ?p = "Promise_all now ?ps"
  have nth: "?ss ! i = attempt w manager ts messages level logger msl now (ts ! i) i" if "i < length ts" for i
    using that by (simp add: nth_enumerate_eq)
  have len: "length ?ss = length ts" by simp
  have skip: "\<forall>i<length ts. (?ss ! i = Skipped) = levelBelow (t_level (ts ! i)) level"
    by (simp add: nth_enumerate_eq attempt_Skipped_iff)
  have mem: "(Rejected t e \<in> set ?ps) = (\<exists>i<length ts. throwFailure w messages level logger msl now (ts ! i) = Some (t, e))" for t e
  proof
    assume "Rejected t e \<in> set ?ps"
    then obtain s where s: "s \<in> set ?ss" "slotPromise s = Some (Rejected t e)"
      by (auto simp: set_map_filter)
    from s(1) obtain i where i: "i < length ts" "s = ?ss ! i"
      by (metis in_set_conv_nth len)
    with s(2) nth attempt_Rejected_iff show "\<exists>i<length ts. throwFailure w messages level logger msl now (ts ! i) = Some (t, e)"
      by metis
  next
    assume "\<exists>i<length ts. throwFailure w messages level logger msl now (ts ! i) = Some (t, e)"
    then obtain i where i: "i < length ts" "throwFailure w messages level logger msl now (ts ! i) = Some (t, e)"
      by blast
    then have "slotPromise (?ss ! i) = Some (Rejected t e)"
      by (simp only: nth attempt_Rejected_iff)
    moreover from i(1) have "?ss ! i \<in> set ?ss" by (intro nth_mem) simp
    ultimately show "Rejected t e \<in> set ?ps"
      unfolding set_map_filter by blast
  qed
  have rej: "(\<exists>i<length ts. throwFailure w messages level logger msl now (ts ! i) = Some (t, e)) \<and>
      (\<forall>j<length ts. \<forall>t' e'. throwFailure w messages level logger msl now (ts ! j) = Some (t', e') \<longrightarrow> t \<le> t')"
    if "?p = Rejected t e" for t e
  proof -
    from that have "firstRejection ?ps = Some (t, e)" by (simp add: Promise_all_Rejected)
    from firstRejection_Some [OF this] show ?thesis unfolding mem by blast
  qed
  have conv: "\<exists>t e. ?p = Rejected t e"
    if "\<exists>i<length ts. throwFailure w messages level logger msl now (ts ! i) \<noteq> None"
  proof -
    from that obtain t e where "Rejected t e \<in> set ?ps" unfolding mem by fastforce
    then have "firstRejection ?ps \<noteq> None" unfolding firstRejection_None by blast
    then show ?thesis by (auto simp: Promise_all_def split: option.splits)
  qed
  show ?thesis
    unfolding log'_live [where manager = manager and now = now, OF assms, of w ts messages level logger msl]
    using len skip rej conv by blast
qed

theorem throw_rejects_at_earliest_failure_witness:
  "\<exists>ss. log' demoWorld (always (LoggerFactory_new (Some [throwingTarget, slowTarget])))
          (Some [throwingTarget, slowTarget]) [JStr ''x''] INFO svc 0 10 =
          Inr (Dispatch 10 ss (Rejected 11 boom)) \<and>
        length ss = 2 \<and> ss ! 0 \<noteq> Skipped \<and> ss ! 1 \<noteq> Skipped"
proof -
  let ?ts = "[throwingTarget, slowTarget]"
  have a: "\<not> destroyed (always (LoggerFactory_new (Some ?ts)) 10)"
    by (simp add: always_def LoggerFactory_new_def)
  have t0: "throwFailure demoWorld [JStr ''x''] INFO svc 0 10 (?ts ! 0) = Some (11, boom)"
    by (simp add: throwFailure_def throwingTarget_def INFO_eq invoke_def demoWorld_def)
  have t1: "throwFailure demoWorld [JStr ''x''] INFO svc 0 10 (?ts ! 1) = None"
    by (simp add: throwFailure_def slowTarget_def)
  have l: "\<not> levelBelow (t_level (?ts ! 0)) INFO" "\<not> levelBelow (t_level (?ts ! 1)) INFO"
    by (simp_all add: throwingTarget_def slowTarget_def INFO_eq)
  from throw_rejects_at_earliest_failure [where manager = "always (LoggerFactory_new (Some ?ts))" and now = 10 and ts = ?ts
      and w = demoWorld and messages = "[JStr ''x'']" and level = INFO and logger = svc and msl = 0, OF a]
  obtain ss p where
    r: "log' demoWorld (always (LoggerFactory_new (Some ?ts))) (Some ?ts) [JStr ''x''] INFO svc 0 10 =
          Inr (Dispatch 10 ss p)"
    and len: "length ss = length ?ts"
    and skip: "\<forall>i<length ?ts. (ss ! i = Skipped) = levelBelow (t_level (?ts ! i)) INFO"
    and rej: "\<forall>t e. p = Rejected t e \<longrightarrow>
              (\<exists>i<length ?ts. throwFailure demoWorld [JStr ''x''] INFO svc 0 10 (?ts ! i) = Some (t, e))"
    and conv: "(\<exists>i<length ?ts. throwFailure demoWorld [JStr ''x''] INFO svc 0 10 (?ts ! i) \<noteq> None) \<longrightarrow>
              (\<exists>t e. p = Rejected t e)"
    by blast
  have "\<exists>i<length ?ts. throwFailure demoWorld [JStr ''x''] INFO svc 0 10 (?ts ! i) \<noteq> None"
    using t0 by (intro exI [of _ 0]) simp
  with conv obtain t e where p: "p = Rejected t e" by blast
  with rej obtain i where i: "i < length ?ts"
      "throwFailure demoWorld [JStr ''x''] INFO svc 0 10 (?ts ! i) = Some (t, e)" by blast
  from i(1) have "i = 0 \<or> i = 1" by auto
  with i(2) t0 t1 have "t = 11 \<and> e = boom" by auto
  with p r len skip l show ?thesis by auto
qed

section \<open>Padding and the running maximum\<close>

lemma c_maxSourceLength_format [simp]:
  "c_maxSourceLength (format ms l c s sc u msl f col t ft) = msl"
  by (simp add: format_def)

lemma payload_maxSourceLength:
  assumes "log' w manager ts' messages level logger msl now = Inr d"
    and "s \<in> set (slots d)" and "payload s = Some c"
  shows "c_maxSourceLength c = msl"
proof -
  from assms(1) obtain ts where
    d: "d = Dispatch now
            (map (\<lambda>(i, v). attempt w manager ts messages level logger msl now v i) (enumerate 0 ts))
            (Promise_all now (List.map_filter slotPromise
               (map (\<lambda>(i, v). attempt w manager ts messages level logger msl now v i) (enumerate 0 ts))))"
    by (rule log'_Inr_cases)
  from assms(2) d obtain i where s: "s = attempt w manager ts messages level logger msl now (ts ! i) i"
    using slots_set [of s "\<lambda>v i. attempt w manager ts messages level logger msl now v i" ts] by auto
  show ?thesis
  proof (cases "levelBelow (t_level (ts ! i)) level")
    case True
    with s assms(3) show ?thesis by (simp add: attempt.simps)
  next
    case False
    from attempt_payload [OF False] s assms(3) show ?thesis by auto
  qed
qed

lemma recovery_maxSourceLength:
  assumes "log' w manager ts' messages level logger msl now = Inr d"
    and "s \<in> set (slots d)" and "recovery s = Some r"
    and "s' \<in> set (slots r)" and "payload s' = Some c"
  shows "c_maxSourceLength c = msl"
proof -
  from assms(1) obtain ts where
    d: "d = Dispatch now
            (map (\<lambda>(i, v). attempt w manager ts messages level logger msl now v i) (enumerate 0 ts))
            (Promise_all now (List.map_filter slotPromise
               (map (\<lambda>(i, v). attempt w manager ts messages level logger msl now v i) (enumerate 0 ts))))"
    by (rule log'_Inr_cases)
  from assms(2) d obtain i where s: "s = attempt w manager ts messages level logger msl now (ts ! i) i"
    using slots_set [of s "\<lambda>v i. attempt w manager ts messages level logger msl now v i" ts] by auto
  from assms(3) s attempt_recovery_cases [of w manager ts messages level logger msl now "ts ! i" i r]
  obtain m l t where "log' w manager (Some (map (\<lambda>v. v\<lparr>t_errorPolicy := IGNORE\<rparr>) ts)) m l logger msl t = Inr r"
    by blast
  from payload_maxSourceLength [OF this assms(4,5)] show ?thesis .
qed

lemma Logger_call_log':
  "\<exists>level. Logger_call m w manager logger messages now =
     log' w manager (targets (manager now)) messages level logger (maxSourceLength (manager now)) now"
  by (cases m) (auto simp: Logger_call_def Logger_trace_def Logger_debug_def Logger_info_def
      Logger_warn_def Logger_error_def Logger_fatal_def)

lemma factory1_eq: "factory1 = \<lparr>targets = Some [slowTarget], maxSourceLength = 1, destroyed = False\<rparr>"
  by (simp add: factory1_def factory0_def createLogger_def LoggerFactory_new_def packArray_def
      hexOfNumber_def)

lemma loggerA_eq: "loggerA = \<lparr>component = ''a'', source = None, color = None\<rparr>"
  by (simp add: loggerA_def factory0_def createLogger_def LoggerFactory_new_def packArray_def
      hexOfNumber_def)

lemma factory2_eq: "factory2 = \<lparr>targets = Some [slowTarget], maxSourceLength = 4, destroyed = False\<rparr>"
  by (simp add: factory2_def factory1_eq createLogger_def packArray_def hexOfNumber_def)

text \<open>
  C5, as stated, fails. Logger \<open>a\<close> is created when the maximum is 1; after a second logger
  \<open>abcd\<close> has been created, a call on the first logger pads its name to width 4, where
  before it padded to width 1.
\<close>

theorem padding_follows_later_loggers:
  "maxSourceLength factory1 = 1 \<and>
   map (map_option paddedSource) (map payload (slots (projr
      (Logger_info demoWorld (always factory1) loggerA [JStr ''x''] 10)))) = [Some ''a''] \<and>
   maxSourceLength factory2 = 4 \<and>
   map (map_option paddedSource) (map payload (slots (projr
      (Logger_info demoWorld (always factory2) loggerA [JStr ''x''] 20)))) = [Some ''a   '']"
  by (simp add: factory1_eq factory2_eq loggerA_eq Logger_info_def log'.simps attempt.simps Let_def
      ex_defs INFO_eq paddedSource_def padEnd_def replicate_3)

text \<open>
  C5, amended. The padding length of a log call is the factory's \<^verbatim>\<open>maxSourceLength\<close> as
  it is when the method is called, in every payload of the dispatch and of its recovery
  dispatches; and a successful \<^verbatim>\<open>createLogger\<close> leaves the larger of the old maximum and
  the length of the new display name. So a later logger widens the padding of the earlier
  ones.
\<close>

theorem padding_reads_current_maximum:
  "(Logger_call m w manager logger messages now = Inr d \<longrightarrow>
      (\<forall>s\<in>set (slots d). \<forall>c. payload s = Some c \<longrightarrow> c_maxSourceLength c = maxSourceLength (manager now)) \<and>
      (\<forall>s\<in>set (slots d). \<forall>r. recovery s = Some r \<longrightarrow>
         (\<forall>s'\<in>set (slots r). \<forall>c. payload s' = Some c \<longrightarrow> c_maxSourceLength c = maxSourceLength (manager now)))) \<and>
   (fst (createLogger this c s col) = Inr lg \<longrightarrow>
      maxSourceLength (snd (createLogger this c s col)) =
        max (maxSourceLength this) (length c + (case s of None \<Rightarrow> 0 | Some x \<Rightarrow> Suc (length x))))"
proof (intro conjI impI ballI allI)
  fix s c'
  assume a: "Logger_call m w manager logger messages now = Inr d" "s \<in> set (slots d)" "payload s = Some c'"
  from Logger_call_log' [of m w manager logger messages now] a(1) obtain level where
    "log' w manager (targets (manager now)) messages level logger (maxSourceLength (manager now)) now = Inr d"
    by auto
  from payload_maxSourceLength [OF this a(2,3)]
  show "c_maxSourceLength c' = maxSourceLength (manager now)" .
next
  fix s r s' c'
  assume a: "Logger_call m w manager logger messages now = Inr d" "s \<in> set (slots d)" "recovery s = Some r"
    "s' \<in> set (slots r)" "payload s' = Some c'"
  from Logger_call_log' [of m w manager logger messages now] a(1) obtain level where
    "log' w manager (targets (manager now)) messages level logger (maxSourceLength (manager now)) now = Inr d"
    by auto
  from recovery_maxSourceLength [OF this a(2,3,4,5)]
  show "c_maxSourceLength c' = maxSourceLength (manager now)" .
next
  assume "fst (createLogger this c s col) = Inr lg"
  then show "maxSourceLength (snd (createLogger this c s col)) =
        max (maxSourceLength this) (length c + (case s of None \<Rightarrow> 0 | Some x \<Rightarrow> Suc (length x)))"
    by (rule createLogger_maxSourceLength)
qed

theorem padding_reads_current_maximum_witness:
  "\<exists>d c r c'. Logger_call Info demoWorld (always factory3) loggerA [JStr ''x''] 20 = Inr d \<and>
      payload (slots d ! 0) = Some c \<and> c_maxSourceLength c = 4 \<and>
      recovery (slots d ! 0) = Some r \<and> payload (slots r ! 0) = Some c' \<and> c_maxSourceLength c' = 4 \<and>
      maxSourceLength (snd (createLogger factory1 ''abcd'' None ColorNull)) = 4"
proof -
  have "\<exists>d. Logger_call Info demoWorld (always factory3) loggerA [JStr ''x''] 20 = Inr d \<and>
      length (slots d) = 3 \<and> (\<exists>c. payload (slots d ! 0) = Some c) \<and>
      (\<exists>r. recovery (slots d ! 0) = Some r \<and> length (slots r) = 3 \<and> (\<exists>c'. payload (slots r ! 0) = Some c'))"
    by (simp add: Logger_call_def Logger_info_def factory3_def loggerA_eq log'.simps attempt.simps Let_def
        ex_defs demoTargets_def INFO_eq ERROR_eq)
  then obtain d c r c' where
    d: "Logger_call Info demoWorld (always factory3) loggerA [JStr ''x''] 20 = Inr d"
    and l: "length (slots d) = 3" and c: "payload (slots d ! 0) = Some c"
    and r: "recovery (slots d ! 0) = Some r" and l': "length (slots r) = 3"
    and c': "payload (slots r ! 0) = Some c'"
    by blast
  have g: "fst (createLogger factory1 ''abcd'' None ColorNull) = Inr \<lparr>component = ''abcd'', source = None, color = None\<rparr>"
    by (simp add: factory1_eq createLogger_def packArray_def hexOfNumber_def)
  have m: "maxSourceLength (always factory3 20) = 4" by (simp add: always_def factory3_def)
  have s0: "slots d ! 0 \<in> set (slots d)" using l by (intro nth_mem) simp
  have s0': "slots r ! 0 \<in> set (slots r)" using l' by (intro nth_mem) simp
  note t = padding_reads_current_maximum [of Info demoWorld "always factory3" loggerA "[JStr ''x'']" 20 d
      factory1 "''abcd''" None ColorNull "\<lparr>component = ''abcd'', source = None, color = None\<rparr>"]
  from t d s0 c m have 1: "c_maxSourceLength c = 4" by auto
  from t d s0 r s0' c' m have 2: "c_maxSourceLength c' = 4" by auto
  from t g have 3: "maxSourceLength (snd (createLogger factory1 ''abcd'' None ColorNull)) = 4"
    by (simp add: factory1_eq)
  from d c r c' 1 2 3 show ?thesis by blast
qed

section \<open>Destruction\<close>

lemma destroy_sets_destroyed: "destroyed (fst (snd (destroy this hp)))"
  by (auto simp: destroy_def split: option.splits)

text \<open>
  C7. \<^verbatim>\<open>destroy\<close> is idempotent: a second call throws nothing and changes neither the
  factory nor any stream, so no sink is released twice; after the first call the destroyed
  flag is set, and the target list of a factory that was alive is cleared.
\<close>

theorem destroy_idempotent:
  "destroy (fst (snd (destroy this hp))) (snd (snd (destroy this hp))) = (None, snd (destroy this hp))
   \<and> destroyed (fst (snd (destroy this hp)))
   \<and> (\<not> destroyed this \<longrightarrow> targets (fst (snd (destroy this hp))) = None)"
  by (auto simp: destroy_def split: option.splits)

theorem destroy_idempotent_witness:
  "\<not> destroyed streamFactory \<and>
   destroy (fst (snd (destroy streamFactory twoStreams))) (snd (snd (destroy streamFactory twoStreams))) =
     (None, snd (destroy streamFactory twoStreams)) \<and>
   fst (snd (destroy streamFactory twoStreams)) = \<lparr>targets = None, maxSourceLength = 0, destroyed = True\<rparr> \<and>
   map ws_destroyCalls (snd (snd (destroy streamFactory twoStreams))) = [1, 0]"
proof -
  have a: "\<not> destroyed streamFactory" by (simp add: streamFactory_def LoggerFactory_new_def)
  have b: "snd (destroy streamFactory twoStreams) =
      (\<lparr>targets = None, maxSourceLength = 0, destroyed = True\<rparr>,
       [(twoStreams ! 0)\<lparr>ws_destroyCalls := 1\<rparr>, twoStreams ! 1])"
    by (simp add: destroy_def streamFactory_def LoggerFactory_new_def List.map_filter_def privateStream_def
        errorsOnlyTarget_def stream_destroy_def twoStreams_def)
  from destroy_idempotent [of streamFactory twoStreams] a b show ?thesis
    by (simp add: twoStreams_def)
qed

lemma step_destroyed:
  assumes "destroyed (factory s)"
  shows "step w future now c s = (afterDestroy c, s)"
proof (cases c)
  case (CreateLogger c' s' col)
  with assms show ?thesis by (simp add: step_def afterDestroy_def createLogger_def)
next
  case Destroy
  with assms show ?thesis by (simp add: step_def afterDestroy_def destroy_def)
next
  case (Log m logger messages)
  have "destroyed ((future(now := factory s)) now)" using assms by simp
  then have "Logger_call m w (future(now := factory s)) logger messages now =
      Inl (Err Error ''Logger has been destroyed'')"
    using Logger_call_log' [of m w "future(now := factory s)" logger messages now]
    by (auto simp: log'_destroyed)
  with Log show ?thesis by (simp add: step_def afterDestroy_def)
qed

lemma run_destroyed:
  "destroyed (factory s) \<Longrightarrow> run w future calls s = (map (afterDestroy \<circ> snd) calls, s)"
  by (induction calls) (auto simp: step_destroyed)

text \<open>
  C6. Once \<^verbatim>\<open>destroy\<close> has been called, every later call fails at once, whatever the
  sequence of calls: \<^verbatim>\<open>createLogger\<close> throws \<^verbatim>\<open>LoggerFacotry has been destroyed\<close>, each
  log method throws \<^verbatim>\<open>Logger has been destroyed\<close> without starting a dispatch, a further
  \<^verbatim>\<open>destroy\<close> returns; the factory and the streams stay as \<^verbatim>\<open>destroy\<close> left them.
\<close>

theorem destroyed_factory_rejects_every_call:
  "run w future calls \<lparr>factory = fst (snd (destroy this hp)), streams = snd (snd (destroy this hp))\<rparr> =
     (map (afterDestroy \<circ> snd) calls,
      \<lparr>factory = fst (snd (destroy this hp)), streams = snd (snd (destroy this hp))\<rparr>)"
  by (rule run_destroyed) (simp add: destroy_sets_destroyed)

theorem destroyed_factory_rejects_every_call_witness:
  "run demoWorld (always factory3)
       [(5, Log Info svc [JStr ''x'']), (6, CreateLogger ''z'' None ColorNull), (7, Destroy),
        (8, Log Fatal svc [])]
       \<lparr>factory = fst (snd (destroy factory3 [])), streams = snd (snd (destroy factory3 []))\<rparr> =
     ([Threw (Err Error ''Logger has been destroyed''), Threw (Err Error ''LoggerFacotry has been destroyed''),
       Returned, Threw (Err Error ''Logger has been destroyed'')],
      \<lparr>factory = \<lparr>targets = None, maxSourceLength = 4, destroyed = True\<rparr>, streams = []\<rparr>)"
proof -
  have "destroy factory3 [] = (None, \<lparr>targets = None, maxSourceLength = 4, destroyed = True\<rparr>, [])"
    by (simp add: destroy_def factory3_def demoTargets_def List.map_filter_def privateStream_def
        failingTarget_def errorsOnlyTarget_def)
  with destroyed_factory_rejects_every_call [of demoWorld "always factory3"
      "[(5, Log Info svc [JStr ''x'']), (6, CreateLogger ''z'' None ColorNull), (7, Destroy), (8, Log Fatal svc [])]"
      factory3 "[]"]
  show ?thesis by (simp add: afterDestroy_def)
qed

section \<open>Ownership of streams\<close>

lemma baseTargetOptions_sink: "baseTargetOptions target s = Inr t \<Longrightarrow> t_sink t = s"
  by (auto simp: baseTargetOptions_def split: sum.splits)

lemma createStream_Inr:
  "createStream homedir hp path fie = (Inr h, hp') \<Longrightarrow>
   h = length hp \<and> length hp' = Suc (length hp) \<and> (\<forall>k<length hp. hp' ! k = hp ! k)"
  by (auto simp: createStream_def Let_def nth_append split: pathLike.splits)

lemma createStream_Inl: "createStream homedir hp path fie = (Inl e, hp') \<Longrightarrow> hp' = hp"
  by (auto simp: createStream_def Let_def split: pathLike.splits)

lemma parseTarget_heap:
  assumes "parseTarget homedir hp target = (r, hp')"
  shows "length hp \<le> length hp' \<and> (\<forall>k<length hp. hp' ! k = hp ! k)"
proof (cases "d_type target")
  case (FileTarget path fie el)
  show ?thesis
  proof (cases "createStream homedir hp path fie")
    case (Pair x hp1)
    show ?thesis
    proof (cases x)
      case (Inl e)
      with Pair FileTarget assms createStream_Inl [of homedir hp path fie e hp1] show ?thesis
        by (simp add: parseTarget_def)
    next
      case (Inr h)
      with Pair createStream_Inr [of homedir hp path fie h hp1]
      have h: "h = length hp" "length hp1 = Suc (length hp)" "\<forall>k<length hp. hp1 ! k = hp ! k" by simp_all
      from Pair Inr FileTarget assms
      have "hp' = (if el then hp1[h := (hp1 ! h)\<lparr>ws_errorListener := True\<rparr>] else hp1)"
        by (simp add: parseTarget_def Let_def)
      with h show ?thesis by auto
    qed
  qed
qed (use assms in \<open>auto simp: parseTarget_def Let_def split: option.splits\<close>)

lemma parseTarget_private:
  assumes "parseTarget homedir hp target = (Inr t, hp')" and "privateStream t = Some h"
  shows "length hp \<le> h"
proof (cases "d_type target")
  case (FileTarget path fie el)
  show ?thesis
  proof (cases "createStream homedir hp path fie")
    case (Pair x hp1)
    show ?thesis
    proof (cases x)
      case (Inl e)
      with Pair FileTarget assms show ?thesis by (simp add: parseTarget_def)
    next
      case (Inr h1)
      with Pair createStream_Inr [of homedir hp path fie h1 hp1] have h1: "h1 = length hp" by simp
      from Pair Inr FileTarget assms(1) have "baseTargetOptions target (STREAM h1 True) = Inr t"
        by (simp add: parseTarget_def Let_def)
      from baseTargetOptions_sink [OF this] assms(2) h1 show ?thesis
        by (simp add: privateStream_def)
    qed
  qed
next
  case (StreamTarget st)
  with assms(1) obtain h' where "baseTargetOptions target (STREAM h' False) = Inr t"
    by (auto simp: parseTarget_def split: option.splits)
  from baseTargetOptions_sink [OF this] assms(2) show ?thesis by (simp add: privateStream_def)
next
  case (PostTarget url https opts)
  with assms(1) obtain s where "baseTargetOptions target s = Inr t" "s = HTTPS url (case opts of Some o' \<Rightarrow> spread o' postOptions | None \<Rightarrow> postOptions)
      \<or> s = HTTP url (case opts of Some o' \<Rightarrow> spread o' postOptions | None \<Rightarrow> postOptions)"
    by (auto simp: parseTarget_def Let_def split: if_splits)
  with baseTargetOptions_sink [of target s t] assms(2) show ?thesis by (auto simp: privateStream_def)
next
  case StdOutTarget
  with assms(1) have "baseTargetOptions target (FUNCTION console_log) = Inr t"
    by (simp add: parseTarget_def)
  from baseTargetOptions_sink [OF this] assms(2) show ?thesis by (simp add: privateStream_def)
next
  case (FunctionTarget fn)
  with assms(1) obtain f where "baseTargetOptions target (FUNCTION f) = Inr t"
    by (auto simp: parseTarget_def split: option.splits)
  from baseTargetOptions_sink [OF this] assms(2) show ?thesis by (simp add: privateStream_def)
next
  case (OtherTarget tag)
  with assms(1) show ?thesis by (simp add: parseTarget_def)
qed

lemma parseTarget_borrowed:
  assumes "parseTarget homedir hp target = (Inr t, hp')" and "d_type target = StreamTarget (Some h)"
  shows "t_sink t = STREAM h False"
proof -
  from assms have "baseTargetOptions target (STREAM h False) = Inr t"
    by (simp add: parseTarget_def)
  then show ?thesis by (rule baseTargetOptions_sink)
qed

lemma parseTargets_spec:
  "parseTargets homedir hp ds acc = (Inr ts, hp') \<Longrightarrow>
   length hp \<le> length hp' \<and> (\<forall>k<length hp. hp' ! k = hp ! k) \<and>
   length ts = length acc + length ds \<and> (\<forall>i<length acc. ts ! i = acc ! i) \<and>
   (\<forall>i<length ds. \<forall>h. d_type (ds ! i) = StreamTarget (Some h) \<longrightarrow>
        t_sink (ts ! (length acc + i)) = STREAM h False) \<and>
   (\<forall>i<length ds. \<forall>h. privateStream (ts ! (length acc + i)) = Some h \<longrightarrow> length hp \<le> h)"
proof (induction ds arbitrary: hp acc)
  case Nil
  then show ?case by simp
next
  case (Cons target rest)
  obtain x hp1 where p: "parseTarget homedir hp target = (x, hp1)" by (cases "parseTarget homedir hp target")
  with Cons.prems obtain t where x: "x = Inr t" by (cases x) auto
  from Cons.prems p x have rec: "parseTargets homedir hp1 rest (acc @ [t]) = (Inr ts, hp')" by simp
  note ih = Cons.IH [OF rec]
  from parseTarget_heap [OF p] have hp1: "length hp \<le> length hp1" "\<forall>k<length hp. hp1 ! k = hp ! k"
    by simp_all
  from ih have len: "length ts = length acc + length (target # rest)" by simp
  from ih have pre: "\<forall>i<length acc. ts ! i = acc ! i"
    by (auto simp: nth_append)
  from ih have t: "ts ! length acc = t"
    by (metis length_append_singleton lessI nth_append_length)
  have heap: "length hp \<le> length hp'" "\<forall>k<length hp. hp' ! k = hp ! k"
    using ih hp1 by auto
  have bor: "t_sink (ts ! (length acc + i)) = STREAM h False"
    if "i < length (target # rest)" "d_type ((target # rest) ! i) = StreamTarget (Some h)" for i h
  proof (cases i)
    case 0
    with that t parseTarget_borrowed [OF p [unfolded x]] show ?thesis by simp
  next
    case (Suc j)
    with that ih show ?thesis by simp
  qed
  have priv: "length hp \<le> h"
    if "i < length (target # rest)" "privateStream (ts ! (length acc + i)) = Some h" for i h
  proof (cases i)
    case 0
    with that t parseTarget_private [OF p [unfolded x]] show ?thesis by simp
  next
    case (Suc j)
    with that ih have "length hp1 \<le> h" by simp
    with hp1 show ?thesis by simp
  qed
  from heap len pre bor priv show ?case by blast
qed

lemma stream_destroy_length [simp]: "length (stream_destroy h hp) = length hp"
  by (simp add: stream_destroy_def)

lemma stream_destroy_other: "k \<noteq> h \<Longrightarrow> stream_destroy h hp ! k = hp ! k"
  by (simp add: stream_destroy_def)

lemma fold_stream_destroy_other: "k \<notin> set hs \<Longrightarrow> fold stream_destroy hs hp ! k = hp ! k"
  by (induction hs arbitrary: hp) (auto simp: stream_destroy_other)

lemma destroy_frame:
  assumes "\<forall>ts. targets this = Some ts \<longrightarrow> (\<forall>v\<in>set ts. \<forall>h. privateStream v = Some h \<longrightarrow> n \<le> h)"
    and "destroy this hp = (e, this', hp')"
  shows "targets this' = None \<or> (this' = this \<and> hp' = hp)" and "\<forall>k<n. hp' ! k = hp ! k"
proof -
  show "targets this' = None \<or> (this' = this \<and> hp' = hp)"
    using assms(2) by (auto simp: destroy_def split: if_splits option.splits)
  show "\<forall>k<n. hp' ! k = hp ! k"
  proof (intro allI impI)
    fix k assume k: "k < n"
    show "hp' ! k = hp ! k"
    proof (cases "destroyed this \<or> targets this = None")
      case True
      with assms(2) show ?thesis by (auto simp: destroy_def split: if_splits option.splits)
    next
      case False
      then obtain ts where ts: "targets this = Some ts" "\<not> destroyed this" by auto
      with assms(2) have hp': "hp' = fold stream_destroy (List.map_filter privateStream ts) hp"
        by (simp add: destroy_def)
      have "k \<notin> set (List.map_filter privateStream ts)"
        using assms(1) ts(1) k by (fastforce simp: set_map_filter)
      with hp' show ?thesis by (simp add: fold_stream_destroy_other)
    qed
  qed
qed

lemma step_frame:
  assumes "\<forall>ts. targets (factory s) = Some ts \<longrightarrow> (\<forall>v\<in>set ts. \<forall>h. privateStream v = Some h \<longrightarrow> n \<le> h)"
    and "step w future now c s = (r, s')"
  shows "(\<forall>ts. targets (factory s') = Some ts \<longrightarrow> (\<forall>v\<in>set ts. \<forall>h. privateStream v = Some h \<longrightarrow> n \<le> h)) \<and>
         (\<forall>k<n. streams s' ! k = streams s ! k)"
proof (cases c)
  case (CreateLogger c' src col)
  obtain x f where cl: "createLogger (factory s) c' src col = (x, f)"
    by (cases "createLogger (factory s) c' src col")
  with createLogger_targets [of "factory s" c' src col] have f: "targets f = targets (factory s)" by simp
  from cl CreateLogger assms(2) have "s' = s\<lparr>factory := f\<rparr>"
    by (cases x) (auto simp: step_def)
  with f assms(1) show ?thesis by simp
next
  case Destroy
  obtain e f hp where d: "destroy (factory s) (streams s) = (e, f, hp)"
    by (cases "destroy (factory s) (streams s)")
  with Destroy assms(2) have s': "s' = \<lparr>factory = f, streams = hp\<rparr>"
    by (cases e) (auto simp: step_def)
  from destroy_frame [OF assms(1) d] s' assms(1) show ?thesis by auto
next
  case (Log m logger messages)
  with assms(2) have "s' = s" by (auto simp: step_def split: sum.splits)
  with assms(1) show ?thesis by simp
qed

lemma run_frame:
  "\<forall>ts. targets (factory s) = Some ts \<longrightarrow> (\<forall>v\<in>set ts. \<forall>h. privateStream v = Some h \<longrightarrow> n \<le> h) \<Longrightarrow>
   run w future calls s = (rs, s') \<Longrightarrow> \<forall>k<n. streams s' ! k = streams s ! k"
proof (induction calls arbitrary: s rs s')
  case Nil
  then show ?case by simp
next
  case (Cons a calls)
  obtain now c where a: "a = (now, c)" by (cases a)
  obtain r s1 where st: "step w future now c s = (r, s1)" by (cases "step w future now c s")
  obtain rs1 s2 where ru: "run w future calls s1 = (rs1, s2)" by (cases "run w future calls s1")
  from Cons.prems(2) a st ru have s': "s' = s2" by simp
  from step_frame [OF Cons.prems(1) st] Cons.IH [OF _ ru] s' show ?case by simp
qed

lemma step_not_Destroy: "c \<noteq> Destroy \<Longrightarrow> streams (snd (step w future now c s)) = streams s"
  by (cases c) (auto simp: step_def split: sum.splits prod.splits)

text \<open>
  C8. A stream given in a \<^verbatim>\<open>STREAM\<close> descriptor becomes a target marked not private.
  Whatever calls follow the creation of the factory, no stream that existed before the
  factory was created (every stream a caller can supply is one of them) ever has
  \<^verbatim>\<open>destroy()\<close> called on it; and no call other than \<^verbatim>\<open>destroy\<close> changes any stream, so
  the streams the factory opened itself are released by \<^verbatim>\<open>destroy\<close> alone.
\<close>

theorem borrowed_streams_never_closed:
  assumes "createLoggerFactory homedir hp descs = (Inr f, hp1)"
    and "ds = (case descs of One t \<Rightarrow> [t] | Many l \<Rightarrow> l)"
    and "run w future calls \<lparr>factory = f, streams = hp1\<rparr> = (rs, s')"
  shows "(\<exists>ts. targets f = Some ts \<and> length ts = length ds \<and>
            (\<forall>i<length ds. \<forall>h. d_type (ds ! i) = StreamTarget (Some h) \<longrightarrow> t_sink (ts ! i) = STREAM h False)) \<and>
         (\<forall>h<length hp. ws_destroyCalls (streams s' ! h) = ws_destroyCalls (hp ! h)) \<and>
         (\<forall>c now s. c \<noteq> Destroy \<longrightarrow> streams (snd (step w future now c s)) = streams s)"
proof -
  from assms(1,2) obtain ts where ts: "parseTargets homedir hp ds [] = (Inr ts, hp1)"
    and f: "f = LoggerFactory_new (Some ts)"
    by (auto simp: createLoggerFactory_def split: prod.splits sum.splits)
  note sp = parseTargets_spec [OF ts]
  have priv: "\<forall>v\<in>set ts. \<forall>h. privateStream v = Some h \<longrightarrow> length hp \<le> h"
  proof (intro ballI allI impI)
    fix v h assume "v \<in> set ts" "privateStream v = Some h"
    then obtain i where "i < length ts" "ts ! i = v" by (auto simp: in_set_conv_nth)
    with sp \<open>privateStream v = Some h\<close> show "length hp \<le> h" by auto
  qed
  have inv: "\<forall>ts'. targets (factory \<lparr>factory = f, streams = hp1\<rparr>) = Some ts' \<longrightarrow>
      (\<forall>v\<in>set ts'. \<forall>h. privateStream v = Some h \<longrightarrow> length hp \<le> h)"
    using priv by (simp add: f LoggerFactory_new_def)
  from run_frame [OF inv assms(3)] sp
  have "\<forall>h<length hp. streams s' ! h = hp ! h" by simp
  moreover from sp have "\<exists>ts. targets f = Some ts \<and> length ts = length ds \<and>
            (\<forall>i<length ds. \<forall>h. d_type (ds ! i) = StreamTarget (Some h) \<longrightarrow> t_sink (ts ! i) = STREAM h False)"
    by (simp add: f LoggerFactory_new_def)
  ultimately show ?thesis using step_not_Destroy by simp
qed

lemma createLoggerFactory_fileAndStream:
  "createLoggerFactory ''/home/app'' [borrowedStream] (Many fileAndStream) =
     (Inr ownFactory, [borrowedStream, ownStream])"
  by (simp add: createLoggerFactory_def fileAndStream_def plainTarget_def parseTarget_def
      createStream_def Let_def slashes_def startsWith_def baseTargetOptions_def logLevelNum_def
      levelNums_get_def levelNums_def objectPrototype_def orFalse_def ownFactory_def ownStream_def
      TRACE_eq)

lemma run_ownFactory:
  "\<exists>d. run demoWorld (always ownFactory) [(1, Log Info svc [JStr ''x'']), (2, Destroy), (3, Destroy)]
      \<lparr>factory = ownFactory, streams = [borrowedStream, ownStream]\<rparr> =
     ([Promised d, Returned, Returned],
      \<lparr>factory = \<lparr>targets = None, maxSourceLength = 0, destroyed = True\<rparr>,
       streams = [borrowedStream, ownStream\<lparr>ws_destroyCalls := 1\<rparr>]\<rparr>)"
  by (simp add: step_def Logger_call_def Logger_info_def ownFactory_def LoggerFactory_new_def
      log'.simps attempt.simps Let_def destroy_def List.map_filter_def privateStream_def
      stream_destroy_def ownStream_def)

theorem borrowed_streams_never_closed_witness:
  "\<exists>rs s'. createLoggerFactory ''/home/app'' [borrowedStream] (Many fileAndStream) =
       (Inr ownFactory, [borrowedStream, ownStream]) \<and>
     run demoWorld (always ownFactory) [(1, Log Info svc [JStr ''x'']), (2, Destroy), (3, Destroy)]
       \<lparr>factory = ownFactory, streams = [borrowedStream, ownStream]\<rparr> = (rs, s') \<and>
     map t_sink (the (targets ownFactory)) = [STREAM 1 True, STREAM 0 False] \<and>
     map ws_destroyCalls (streams s') = [0, 1]"
proof -
  from run_ownFactory obtain rs s' where
    r: "run demoWorld (always ownFactory) [(1, Log Info svc [JStr ''x'']), (2, Destroy), (3, Destroy)]
       \<lparr>factory = ownFactory, streams = [borrowedStream, ownStream]\<rparr> = (rs, s')"
    and s': "length (streams s') = 2" "ws_destroyCalls (streams s' ! 1) = 1"
    by (auto simp: ownStream_def)
  from borrowed_streams_never_closed [OF createLoggerFactory_fileAndStream _ r, of fileAndStream]
  have "ws_destroyCalls (streams s' ! 0) = ws_destroyCalls ([borrowedStream] ! 0)" by simp
  then have "ws_destroyCalls (streams s' ! 0) = 0" by (simp add: borrowedStream_def)
  with s' have "map ws_destroyCalls (streams s') = [0, 1]"
    by (cases "streams s'"; cases "tl (streams s')") auto
  with r createLoggerFactory_fileAndStream show ?thesis
    by (auto simp: ownFactory_def LoggerFactory_new_def)
qed

end
